theory Spec2Isabelle
  imports Complex_Main
begin

section \<open>The ETL pipeline of \<^verbatim>\<open>src/etl/pipeline.js\<close>\<close>

text \<open>
  The development embeds the functions of \<^verbatim>\<open>pipeline.js\<close> (\<^verbatim>\<open>cleanString\<close>,
  \<^verbatim>\<open>toNumber\<close>, \<^verbatim>\<open>toFloat\<close>, \<^verbatim>\<open>normalizeType\<close>, \<^verbatim>\<open>getConsumptionLevel\<close>,
  \<^verbatim>\<open>transform\<close>, \<^verbatim>\<open>extract\<close>, \<^verbatim>\<open>load\<close>, \<^verbatim>\<open>runETLPipeline\<close>) together with the
  part of the JavaScript language they rest on: Number values and their arithmetic, strings,
  the conversions \<^verbatim>\<open>Number(v)\<close>, \<^verbatim>\<open>parseFloat(v)\<close>, \<^verbatim>\<open>String(v)\<close>, truthiness, and the
  stable \<^verbatim>\<open>Array.prototype.sort\<close>.
\<close>

subsection \<open>JavaScript Number values\<close>

text \<open>
  A Number is \<^verbatim>\<open>NaN\<close>, one of the two infinities, or a finite binary64 value, kept as the
  rational it denotes. The type has a finite value for every rational; those of JavaScript
  are the ones the rounding below returns, and what holds for all rationals holds for them.
  The two zeros are identified: the pipeline never divides by a zero (its only divisor is
  guarded by \<^verbatim>\<open>surface_m2 > 0\<close>), and \<^verbatim>\<open>-0\<close> is falsy, not greater than \<^verbatim>\<open>0\<close>, and
  printed as \<^verbatim>\<open>"0"\<close> just as \<^verbatim>\<open>+0\<close> is.
\<close>

datatype jsnum = NaN | PInf | NInf | Fin rat

text \<open>
  \<open>floor_log b x\<close> is the integer \<open>e\<close> with \<open>b\<^sup>e \<le> x < b\<^bsup>e+1\<^esup>\<close> for \<open>x > 0\<close>:
  the binary exponent of a value (\<open>b = 2\<close>) or its decimal exponent (\<open>b = 10\<close>),
  found by repeated division (for \<open>x \<ge> 1\<close>) or multiplication (for \<open>x < 1\<close>).
\<close>

function log_up :: "nat \<Rightarrow> rat \<Rightarrow> int" where
  "log_up b x = (if 2 \<le> b \<and> of_nat b \<le> x then log_up b (x / of_nat b) + 1 else 0)"
  by pat_completeness auto
termination
proof (relation "measure (\<lambda>(b, x). nat \<lfloor>x\<rfloor>)")
  show "wf (measure (\<lambda>(b, x). nat \<lfloor>x\<rfloor>))" by simp
next
  fix b :: nat and x :: rat
  assume a: "2 \<le> b \<and> of_nat b \<le> x"
  then have b2: "(2::rat) \<le> of_nat b" by (metis of_nat_le_iff of_nat_numeral)
  then have x2: "2 \<le> x" using a by linarith
  have "x / of_nat b \<le> x / 2" by (rule divide_left_mono) (use b2 x2 in auto)
  also have "\<dots> \<le> x - 1" using x2 by simp
  finally have "\<lfloor>x / of_nat b\<rfloor> \<le> \<lfloor>x - 1\<rfloor>" by (rule floor_mono)
  moreover have "1 \<le> \<lfloor>x\<rfloor>" using x2 by (simp add: le_floor_iff)
  ultimately show "((b, x / of_nat b), (b, x)) \<in> measure (\<lambda>(b, x). nat \<lfloor>x\<rfloor>)"
    by simp
qed

function log_down :: "nat \<Rightarrow> rat \<Rightarrow> int" where
  "log_down b x = (if 2 \<le> b \<and> 0 < x \<and> x < 1 then log_down b (of_nat b * x) - 1 else 0)"
  by pat_completeness auto
termination
proof (relation "measure (\<lambda>(b, x). nat \<lceil>1 / x\<rceil>)")
  show "wf (measure (\<lambda>(b, x). nat \<lceil>1 / x\<rceil>))" by simp
next
  fix b :: nat and x :: rat
  assume a: "2 \<le> b \<and> 0 < x \<and> x < 1"
  then have b2: "(2::rat) \<le> of_nat b" by (metis of_nat_le_iff of_nat_numeral)
  define y where "y = 1 / x"
  have y1: "1 < y" using a by (simp add: y_def)
  then have c2: "2 \<le> \<lceil>y\<rceil>" by (simp add: le_ceiling_iff) 
  have "1 / (of_nat b * x) = y / of_nat b" by (simp add: y_def)
  also have "\<dots> \<le> y / 2" by (rule divide_left_mono) (use b2 y1 in auto)
  also have "\<dots> \<le> of_int \<lceil>y\<rceil> / 2" by (simp add: divide_right_mono)
  also have "\<dots> \<le> of_int (\<lceil>y\<rceil> - 1)" using c2 by simp
  finally have "\<lceil>1 / (of_nat b * x)\<rceil> \<le> \<lceil>y\<rceil> - 1" by (rule ceiling_le)
  then show "((b, of_nat b * x), (b, x)) \<in> measure (\<lambda>(b, x). nat \<lceil>1 / x\<rceil>)"
    using c2 a by (simp add: y_def)
qed

declare log_up.simps [simp del] log_down.simps [simp del]

definition floor_log :: "nat \<Rightarrow> rat \<Rightarrow> int" where
  "floor_log b x = (if 1 \<le> x then log_up b x else log_down b x)"

text \<open>
  Rounding to binary64, round-to-nearest with ties to even (IEEE 754): the magnitude is
  scaled by the quantum \<open>q = 2\<^bsup>e-52\<^esup>\<close> of its binade (\<open>e \<ge> -1022\<close>, so that small values
  are subnormal multiples of \<open>2\<^bsup>-1074\<^esup>\<close>), rounded to an integer \<open>n \<le> 2\<^bsup>53\<^esup>\<close>, and scaled
  back. The result overflows to an infinity when \<open>n \<times> q\<close> reaches \<open>2\<^bsup>1024\<^esup>\<close>: the binade
  is beyond the last one (\<open>e > 1023\<close>), or it is the last one and the rounding carries out
  of it (\<open>n = 2\<^bsup>53\<^esup>\<close>).
\<close>

definition round_half_even :: "rat \<Rightarrow> int" where
  "round_half_even y =
     (let f = \<lfloor>y\<rfloor>; d = y - of_int f
      in if d < 1 / 2 then f else if 1 / 2 < d then f + 1 else if even f then f else f + 1)"

definition round64 :: "rat \<Rightarrow> jsnum" where
  "round64 x =
     (if x = 0 then Fin 0
      else let a = \<bar>x\<bar>;
               e = max (floor_log 2 a) (- 1022);
               q = 2 powi (e - 52);
               n = round_half_even (a / q)
           in if 1023 < e \<or> (e = 1023 \<and> n = 2 ^ 53) then (if 0 < x then PInf else NInf)
              else Fin (if 0 < x then of_int n * q else - (of_int n * q)))"

text \<open>The arithmetic of Numbers: the exact result, rounded; the special values as in IEEE 754.\<close>

fun num_neg :: "jsnum \<Rightarrow> jsnum" where
  "num_neg NaN = NaN"
| "num_neg PInf = NInf"
| "num_neg NInf = PInf"
| "num_neg (Fin x) = Fin (- x)"

fun num_add :: "jsnum \<Rightarrow> jsnum \<Rightarrow> jsnum" where
  "num_add (Fin x) (Fin y) = round64 (x + y)"
| "num_add NaN b = NaN"
| "num_add a NaN = NaN"
| "num_add PInf NInf = NaN"
| "num_add NInf PInf = NaN"
| "num_add PInf b = PInf"
| "num_add NInf b = NInf"
| "num_add (Fin x) b = b"

definition num_sub :: "jsnum \<Rightarrow> jsnum \<Rightarrow> jsnum" where
  "num_sub a b = num_add a (num_neg b)"

fun is_negative :: "jsnum \<Rightarrow> bool" where
  "is_negative NInf = True"
| "is_negative (Fin x) = (x < 0)"
| "is_negative a = False"

fun num_mul :: "jsnum \<Rightarrow> jsnum \<Rightarrow> jsnum" where
  "num_mul (Fin x) (Fin y) = round64 (x * y)"
| "num_mul a b =
     (if a = NaN \<or> b = NaN \<or> a = Fin 0 \<or> b = Fin 0 then NaN
      else if is_negative a = is_negative b then PInf else NInf)"

fun num_div :: "jsnum \<Rightarrow> jsnum \<Rightarrow> jsnum" where
  "num_div (Fin x) (Fin y) =
     (if y = 0 then (if x = 0 then NaN else if 0 < x then PInf else NInf)
      else round64 (x / y))"
| "num_div NaN b = NaN"
| "num_div a NaN = NaN"
| "num_div (Fin x) b = Fin 0"
| "num_div a (Fin y) = (if is_negative a = (y < 0) then PInf else NInf)"
| "num_div a b = NaN"

fun num_lt :: "jsnum \<Rightarrow> jsnum \<Rightarrow> bool" where
  "num_lt (Fin x) (Fin y) = (x < y)"
| "num_lt NaN b = False"
| "num_lt a NaN = False"
| "num_lt a NInf = False"
| "num_lt PInf b = False"
| "num_lt NInf b = True"
| "num_lt a PInf = True"

definition num_gt :: "jsnum \<Rightarrow> jsnum \<Rightarrow> bool" where
  "num_gt a b = num_lt b a"

definition num_le :: "jsnum \<Rightarrow> jsnum \<Rightarrow> bool" where
  "num_le a b = (a \<noteq> NaN \<and> b \<noteq> NaN \<and> \<not> num_lt b a)"

definition num_ge :: "jsnum \<Rightarrow> jsnum \<Rightarrow> bool" where
  "num_ge a b = num_le b a"

text \<open>
  \<^verbatim>\<open>Math.round\<close>: the nearest integer, a tie going up (\<^verbatim>\<open>Math.round(2.5)\<close> is 3,
  \<^verbatim>\<open>Math.round(-2.5)\<close> is -2); exact on every Number.
\<close>

fun Math_round :: "jsnum \<Rightarrow> jsnum" where
  "Math_round (Fin x) = Fin (of_int \<lfloor>x + 1 / 2\<rfloor>)"
| "Math_round a = a"

definition isNaN_num :: "jsnum \<Rightarrow> bool" where
  "isNaN_num n = (n = NaN)"

definition truthy_num :: "jsnum \<Rightarrow> bool" where
  "truthy_num n = (n \<noteq> NaN \<and> n \<noteq> Fin 0)"

text \<open>What \<^verbatim>\<open>Math.round\<close> can return for a Number other than \<^verbatim>\<open>NaN\<close>.\<close>

fun is_integer_or_infinite :: "jsnum \<Rightarrow> bool" where
  "is_integer_or_infinite NaN = False"
| "is_integer_or_infinite (Fin x) = (of_int \<lfloor>x\<rfloor> = x)"
| "is_integer_or_infinite a = True"

subsection \<open>JavaScript strings\<close>

text \<open>
  A string is a sequence of code units; the model keeps the code units below 256 (ASCII and
  the Latin-1 supplement), one \<^typ>\<open>char\<close> each, so the label of a school, with its
  capital E acute (\<^verbatim>\<open>U+00C9\<close>), is \<open>CHR 0xC9 # ''cole''\<close>. White space is the
  \<^verbatim>\<open>WhiteSpace\<close> and \<^verbatim>\<open>LineTerminator\<close> code points of that range: TAB, LF, VT, FF,
  CR, SP, NBSP.
\<close>

definition isWhiteSpace :: "char \<Rightarrow> bool" where
  "isWhiteSpace c = (of_char c \<in> {9, 10, 11, 12, 13, 32, 160 :: nat})"

definition trimStart :: "string \<Rightarrow> string" where
  "trimStart s = dropWhile isWhiteSpace s"

definition trimEnd :: "string \<Rightarrow> string" where
  "trimEnd s = rev (dropWhile isWhiteSpace (rev s))"

definition trim :: "string \<Rightarrow> string" where
  "trim s = trimEnd (trimStart s)"

text \<open>
  \<^verbatim>\<open>String.prototype.toUpperCase\<close> on that range: the ASCII letters and the Latin-1 letters
  \<^verbatim>\<open>U+00E0\<close> to \<^verbatim>\<open>U+00FE\<close> (the division sign \<^verbatim>\<open>U+00F7\<close> apart) move down by 32, and
  \<^verbatim>\<open>U+00DF\<close> becomes \<^verbatim>\<open>SS\<close>. The micro sign \<^verbatim>\<open>U+00B5\<close> and \<^verbatim>\<open>U+00FF\<close> have their
  capitals above 255; they are left as they are, which no key of the table of
  \<^verbatim>\<open>normalizeType\<close> can tell apart (the keys are ASCII).
\<close>

definition upper_units :: "char \<Rightarrow> string" where
  "upper_units c =
     (let n = of_char c :: nat
      in if 97 \<le> n \<and> n \<le> 122 then [char_of (n - 32)]
         else if n = 223 then ''SS''
         else if 224 \<le> n \<and> n \<le> 254 \<and> n \<noteq> 247 then [char_of (n - 32)]
         else [c])"

definition toUpperCase :: "string \<Rightarrow> string" where
  "toUpperCase s = concat (map upper_units s)"

subsection \<open>Strings to Numbers: \<^verbatim>\<open>StringToNumber\<close> and \<^verbatim>\<open>parseFloat\<close>\<close>

definition isDigit :: "char \<Rightarrow> bool" where
  "isDigit c = (48 \<le> (of_char c :: nat) \<and> (of_char c :: nat) \<le> 57)"

definition digits_val :: "string \<Rightarrow> int" where
  "digits_val ds = foldl (\<lambda>n c. 10 * n + (of_char c - 48)) 0 ds"

text \<open>
  \<^verbatim>\<open>ExponentPart\<close>: \<^verbatim>\<open>e\<close> or \<^verbatim>\<open>E\<close>, an optional sign, at least one digit. The scanners
  return the value read and the rest of the string.
\<close>

definition ExponentPart :: "string \<Rightarrow> (int \<times> string) option" where
  "ExponentPart s =
     (case s of
        [] \<Rightarrow> None
      | c # r \<Rightarrow>
          if c = CHR ''e'' \<or> c = CHR ''E'' then
            (let (sgn, r') = (case r of
                                [] \<Rightarrow> (1, r)
                              | d # t \<Rightarrow> if d = CHR ''+'' then (1, t)
                                         else if d = CHR ''-'' then (- 1, t) else (1, r))
             in if takeWhile isDigit r' = [] then None
                else Some (sgn * digits_val (takeWhile isDigit r'), dropWhile isDigit r'))
          else None)"

text \<open>
  \<^verbatim>\<open>StrUnsignedDecimalLiteral\<close>: \<^verbatim>\<open>Infinity\<close>, or digits with an optional fraction and
  an optional exponent, with at least one digit before the exponent. The longest such prefix
  is read; its mathematical value is rounded to binary64.
\<close>

definition StrUnsignedDecimalLiteral :: "string \<Rightarrow> (jsnum \<times> string) option" where
  "StrUnsignedDecimalLiteral s =
     (if take 8 s = ''Infinity'' then Some (PInf, drop 8 s)
      else let ip = takeWhile isDigit s;
               r1 = dropWhile isDigit s;
               (fp, r2) = (case r1 of
                             [] \<Rightarrow> ([], r1)
                           | c # t \<Rightarrow> if c = CHR ''.''
                                      then (takeWhile isDigit t, dropWhile isDigit t)
                                      else ([], r1))
           in if ip = [] \<and> fp = [] then None
              else let m = of_int (digits_val (ip @ fp)) / 10 ^ length fp;
                       (ex, r3) = (case ExponentPart r2 of
                                     None \<Rightarrow> (0, r2)
                                   | Some (e, r) \<Rightarrow> (e, r))
                   in Some (round64 (m * 10 powi ex), r3))"

definition StrDecimalLiteral :: "string \<Rightarrow> (jsnum \<times> string) option" where
  "StrDecimalLiteral s =
     (case s of
        [] \<Rightarrow> None
      | c # t \<Rightarrow>
          if c = CHR ''+'' then StrUnsignedDecimalLiteral t
          else if c = CHR ''-'' then map_option (\<lambda>(v, r). (num_neg v, r)) (StrUnsignedDecimalLiteral t)
          else StrUnsignedDecimalLiteral s)"

text \<open>\<^verbatim>\<open>NonDecimalIntegerLiteral\<close>: \<^verbatim>\<open>0x\<close>, \<^verbatim>\<open>0o\<close> or \<^verbatim>\<open>0b\<close> and digits of that radix.\<close>

definition radix_digit :: "char \<Rightarrow> int" where
  "radix_digit c =
     (let n = of_char c :: int
      in if 48 \<le> n \<and> n \<le> 57 then n - 48
         else if 97 \<le> n \<and> n \<le> 102 then n - 87
         else if 65 \<le> n \<and> n \<le> 70 then n - 55
         else 16)"

definition radix_literal :: "int \<Rightarrow> string \<Rightarrow> jsnum option" where
  "radix_literal b ds =
     (if ds \<noteq> [] \<and> (\<forall>c \<in> set ds. radix_digit c < b)
      then Some (round64 (of_int (foldl (\<lambda>n c. b * n + radix_digit c) 0 ds)))
      else None)"

definition NonDecimalIntegerLiteral :: "string \<Rightarrow> jsnum option" where
  "NonDecimalIntegerLiteral s =
     (case s of
        z # c # ds \<Rightarrow>
          if z \<noteq> CHR ''0'' then None
          else if c = CHR ''x'' \<or> c = CHR ''X'' then radix_literal 16 ds
          else if c = CHR ''o'' \<or> c = CHR ''O'' then radix_literal 8 ds
          else if c = CHR ''b'' \<or> c = CHR ''B'' then radix_literal 2 ds
          else None
      | _ \<Rightarrow> None)"

text \<open>
  \<^verbatim>\<open>StringToNumber\<close> (what \<^verbatim>\<open>Number(s)\<close> does on a string): white space is trimmed at
  both ends; the empty string is 0; the whole rest must be one numeric literal, or the result
  is \<^verbatim>\<open>NaN\<close>.
\<close>

definition StringToNumber :: "string \<Rightarrow> jsnum" where
  "StringToNumber s =
     (let t = trim s
      in if t = [] then Fin 0
         else case StrDecimalLiteral t of
                Some (v, []) \<Rightarrow> v
              | _ \<Rightarrow> (case NonDecimalIntegerLiteral t of Some v \<Rightarrow> v | None \<Rightarrow> NaN))"

text \<open>
  \<^verbatim>\<open>parseFloat\<close> on a string: leading white space is skipped and the longest prefix that
  is a \<^verbatim>\<open>StrDecimalLiteral\<close> is read; what follows it is ignored. No such prefix gives
  \<^verbatim>\<open>NaN\<close>.
\<close>

definition parseFloat_string :: "string \<Rightarrow> jsnum" where
  "parseFloat_string s =
     (case StrDecimalLiteral (trimStart s) of Some (v, r) \<Rightarrow> v | None \<Rightarrow> NaN)"

subsection \<open>Numbers to strings: \<^verbatim>\<open>Number::toString\<close>\<close>

function int_digits :: "int \<Rightarrow> string" where
  "int_digits n =
     (if n < 10 then [char_of (48 + n)] else int_digits (n div 10) @ [char_of (48 + n mod 10)])"
  by pat_completeness auto
termination
  by (relation "measure nat") auto

declare int_digits.simps [simp del]

text \<open>
  For a positive \<open>x\<close> the digits are those of the integer \<open>s\<close> of \<open>k\<close> digits, with \<open>k\<close> as small
  as possible, such that \<open>s \<times> 10\<^bsup>n-k\<^esup>\<close> rounds to \<open>x\<close>; among several such \<open>s\<close> the one
  nearest to \<open>x\<close> is taken. For a given \<open>k\<close> only the two \<open>k\<close>-digit decimals around \<open>x\<close> can
  qualify. Seventeen digits always suffice for a binary64 value (for a rational that is
  none, its first seventeen digits are taken). The digits are then laid out as
  \<^verbatim>\<open>Number::toString\<close> does: plain up to 21 integer digits and down to six leading
  zeros, with an exponent beyond.
\<close>

definition decimal_candidates :: "rat \<Rightarrow> nat \<Rightarrow> (int \<times> int) list" where
  "decimal_candidates x k =
     [(s, n).
        n \<leftarrow> [floor_log 10 x + 1, floor_log 10 x + 2],
        s \<leftarrow> [\<lfloor>x / 10 powi (n - int k)\<rfloor>, \<lfloor>x / 10 powi (n - int k)\<rfloor> + 1],
        10 ^ (k - 1) \<le> s \<and> s < 10 ^ k \<and> round64 (of_int s * 10 powi (n - int k)) = Fin x]"

definition nearest_candidate :: "rat \<Rightarrow> nat \<Rightarrow> (int \<times> int) list \<Rightarrow> int \<times> int" where
  "nearest_candidate x k cs =
     (let dist = (\<lambda>(s, n). \<bar>of_int s * 10 powi (n - int k) - x\<bar>)
      in foldl (\<lambda>best c. if dist c < dist best \<or> (dist c = dist best \<and> even (fst c))
                          then c else best) (hd cs) (tl cs))"

definition shortest_decimal :: "rat \<Rightarrow> nat \<times> int \<times> int" where
  "shortest_decimal x =
     (case filter (\<lambda>k. decimal_candidates x k \<noteq> []) [1 ..< 18] of
        k # _ \<Rightarrow> (k, nearest_candidate x k (decimal_candidates x k))
      | [] \<Rightarrow> (17, \<lfloor>x / 10 powi (floor_log 10 x - 16)\<rfloor>, floor_log 10 x + 1))"

definition format_decimal :: "nat \<times> int \<times> int \<Rightarrow> string" where
  "format_decimal t =
     (case t of (k, s, n) \<Rightarrow>
        let ds = int_digits s;
            ex = (if n - 1 < 0 then ''-'' else ''+'') @ int_digits \<bar>n - 1\<bar>
        in if int k \<le> n \<and> n \<le> 21 then ds @ replicate (nat n - k) CHR ''0''
           else if 0 < n \<and> n \<le> 21 then take (nat n) ds @ ''.'' @ drop (nat n) ds
           else if - 6 < n \<and> n \<le> 0 then ''0.'' @ replicate (nat (- n)) CHR ''0'' @ ds
           else if k = 1 then ds @ ''e'' @ ex
           else take 1 ds @ ''.'' @ drop 1 ds @ ''e'' @ ex)"

fun Number_toString :: "jsnum \<Rightarrow> string" where
  "Number_toString NaN = ''NaN''"
| "Number_toString PInf = ''Infinity''"
| "Number_toString NInf = ''-Infinity''"
| "Number_toString (Fin x) =
     (if x = 0 then ''0''
      else if x < 0 then ''-'' @ format_decimal (shortest_decimal (- x))
      else format_decimal (shortest_decimal x))"

subsection \<open>JavaScript values\<close>

text \<open>
  The values a field of a raw record holds: a missing field reads as \<^verbatim>\<open>undefined\<close>; the
  others are the scalars of JSON. (A field holding an array or an object is outside the
  model.)
\<close>

datatype jsval = JUndefined | JNull | JBool bool | JNum jsnum | JStr string

fun truthy :: "jsval \<Rightarrow> bool" where
  "truthy JUndefined = False"
| "truthy JNull = False"
| "truthy (JBool b) = b"
| "truthy (JNum n) = truthy_num n"
| "truthy (JStr s) = (s \<noteq> [])"

text \<open>\<^verbatim>\<open>String(v)\<close>, \<^verbatim>\<open>Number(v)\<close> and \<^verbatim>\<open>parseFloat(v)\<close>, which reads \<^verbatim>\<open>String(v)\<close>.\<close>

fun ToString :: "jsval \<Rightarrow> string" where
  "ToString JUndefined = ''undefined''"
| "ToString JNull = ''null''"
| "ToString (JBool b) = (if b then ''true'' else ''false'')"
| "ToString (JNum n) = Number_toString n"
| "ToString (JStr s) = s"

fun ToNumber :: "jsval \<Rightarrow> jsnum" where
  "ToNumber JUndefined = NaN"
| "ToNumber JNull = Fin 0"
| "ToNumber (JBool b) = (if b then Fin 1 else Fin 0)"
| "ToNumber (JNum n) = n"
| "ToNumber (JStr s) = StringToNumber s"

definition parseFloat :: "jsval \<Rightarrow> jsnum" where
  "parseFloat v = parseFloat_string (ToString v)"

subsection \<open>The utility functions of \<^verbatim>\<open>pipeline.js\<close>\<close>

text \<open>
  \<^verbatim>\<open>if (value === null || value === undefined || value === '') return '';\<close>
  \<^verbatim>\<open>return String(value).trim();\<close>
\<close>

definition cleanString :: "jsval \<Rightarrow> string" where
  "cleanString value =
     (if value = JNull \<or> value = JUndefined \<or> value = JStr [] then []
      else trim (ToString value))"

text \<open>
  \<^verbatim>\<open>if (value === null || value === undefined || value === '') return 0;\<close>
  \<^verbatim>\<open>const num = Number(value); return isNaN(num) ? 0 : Math.round(num);\<close>
\<close>

definition toNumber :: "jsval \<Rightarrow> jsnum" where
  "toNumber value =
     (if value = JNull \<or> value = JUndefined \<or> value = JStr [] then Fin 0
      else let num = ToNumber value in if isNaN_num num then Fin 0 else Math_round num)"

text \<open>The same with \<^verbatim>\<open>parseFloat(value)\<close> and no rounding: \<^verbatim>\<open>isNaN(num) ? 0 : num\<close>.\<close>

definition toFloat :: "jsval \<Rightarrow> jsnum" where
  "toFloat value =
     (if value = JNull \<or> value = JUndefined \<or> value = JStr [] then Fin 0
      else let num = parseFloat value in if isNaN_num num then Fin 0 else num)"

text \<open>
  The errors a run can raise: the \<^verbatim>\<open>TypeError\<close> of calling a method that a value does not
  have, the \<^verbatim>\<open>SyntaxError\<close> of \<^verbatim>\<open>JSON.parse\<close>, and whatever a callback of the caller throws.
\<close>

datatype error = TypeError | SyntaxError | CallbackError string

text \<open>
  The table of \<^verbatim>\<open>normalizeType\<close>. Its keys are in capitals, so a look-up of an upper-cased
  string finds none of the properties an object literal inherits (\<^verbatim>\<open>constructor\<close>,
  \<^verbatim>\<open>toString\<close>, ...): only the six own keys matter.
\<close>

definition type_map :: "string \<rightharpoonup> string" where
  "type_map = map_of
     [(''ECOLE'', CHR 0xC9 # ''cole''),
      (''PISCINE'', ''Piscine''),
      (''MAIRIE'', ''Mairie''),
      (''BIBLIOTHEQUE'', ''Biblioth'' @ CHR 0xE8 # ''que''),
      (''GYMNASE'', ''Gymnase''),
      (''CRECHE'', ''Cr'' @ CHR 0xE8 # ''che'')]"

text \<open>
  \<^verbatim>\<open>if (!type) return 'Autre'; ... return map[type.toUpperCase()] || type;\<close>
  Every label of the table is truthy, so \<^verbatim>\<open>|| type\<close> applies exactly when the key is not in
  the table. A truthy value that is not a string (\<^verbatim>\<open>true\<close>, a non-zero number) has no
  \<^verbatim>\<open>toUpperCase\<close> method: the call raises a \<^verbatim>\<open>TypeError\<close>.
\<close>

definition normalizeType :: "jsval \<Rightarrow> error + string" where
  "normalizeType type =
     (if \<not> truthy type then Inr ''Autre''
      else case type of
             JStr s \<Rightarrow> (case type_map (toUpperCase s) of
                          Some label \<Rightarrow> Inr label
                        | None \<Rightarrow> Inr s)
           | _ \<Rightarrow> Inl TypeError)"

definition getConsumptionLevel :: "jsnum \<Rightarrow> jsnum \<Rightarrow> string" where
  "getConsumptionLevel totalEnergy surface =
     (if num_le surface (Fin 0) then ''medium''
      else let intensity = num_div totalEnergy surface
           in if num_lt intensity (Fin 30) then ''low''
              else if num_lt intensity (Fin 60) then ''medium''
              else ''high'')"

subsection \<open>Records\<close>

text \<open>
  A raw record is an object: a finite map from property names to values, a property that is
  absent reading as \<^verbatim>\<open>undefined\<close>.
\<close>

type_synonym raw_record = "string \<rightharpoonup> jsval"

definition field :: "raw_record \<Rightarrow> string \<Rightarrow> jsval" where
  "field record name = (case record name of None \<Rightarrow> JUndefined | Some v \<Rightarrow> v)"

text \<open>The object the first \<^verbatim>\<open>map\<close> of \<^verbatim>\<open>transform\<close> builds.\<close>

record cleaned =
  nom :: string
  type :: string
  adresse :: string
  electricite_kwh :: jsnum
  gaz_kwh :: jsnum
  eau_m3 :: jsnum
  surface_m2 :: jsnum
  annee :: jsnum
  latitude :: jsnum
  longitude :: jsnum
  classe_dpe :: string
  occupants :: jsnum

text \<open>The object of the second \<^verbatim>\<open>map\<close>: \<^verbatim>\<open>{...record, energie_totale_kwh: ..., ...}\<close>.\<close>

record enriched = cleaned +
  energie_totale_kwh :: jsnum
  intensite_energetique :: jsnum
  intensite_eau :: jsnum
  niveau_conso :: string

subsection \<open>\<^verbatim>\<open>transform\<close>\<close>

text \<open>\<^verbatim>\<open>a || 0\<close> on Numbers.\<close>

definition or_zero :: "jsnum \<Rightarrow> jsnum" where
  "or_zero a = (if truthy_num a then a else Fin 0)"

text \<open>
  Step 1, the callback of the first \<^verbatim>\<open>map\<close>. The properties are evaluated in order; only
  \<^verbatim>\<open>normalizeType\<close> can raise, and then no object is built.
\<close>

definition rename_fields :: "raw_record \<Rightarrow> error + cleaned" where
  "rename_fields record =
     (case normalizeType (field record ''type_infra'') of
        Inl e \<Rightarrow> Inl e
      | Inr t \<Rightarrow> Inr
          \<lparr> nom = cleanString (field record ''nom_batiment''),
            type = t,
            adresse = cleanString (field record ''adresse_postale''),
            electricite_kwh = toNumber (field record ''conso_elec_kwh''),
            gaz_kwh = toNumber (field record ''conso_gaz_kwh''),
            eau_m3 = toNumber (field record ''conso_eau_m3''),
            surface_m2 = toNumber (field record ''surface_m2''),
            annee = toNumber (field record ''annee''),
            latitude = toFloat (field record ''lat''),
            longitude = toFloat (field record ''lng''),
            classe_dpe = cleanString (field record ''dpe_classe''),
            occupants = or_zero (toNumber (field record ''nb_occupants'')) \<rparr>)"

text \<open>\<^verbatim>\<open>Array.prototype.map\<close> with a callback that may raise: the first error ends it.\<close>

fun map_result :: "('a \<Rightarrow> error + 'b) \<Rightarrow> 'a list \<Rightarrow> error + 'b list" where
  "map_result f [] = Inr []"
| "map_result f (x # xs) =
     (case f x of
        Inl e \<Rightarrow> Inl e
      | Inr y \<Rightarrow> (case map_result f xs of Inl e \<Rightarrow> Inl e | Inr ys \<Rightarrow> Inr (y # ys)))"

text \<open>
  Step 2, the predicate of \<^verbatim>\<open>filter\<close>:
  \<^verbatim>\<open>r.nom && r.latitude && r.longitude && r.electricite_kwh > 0\<close>, taken for its truthiness.
\<close>

definition is_valid :: "cleaned \<Rightarrow> bool" where
  "is_valid r =
     (nom r \<noteq> [] \<and> truthy_num (latitude r) \<and> truthy_num (longitude r)
      \<and> num_gt (electricite_kwh r) (Fin 0))"

text \<open>Step 3, the callback of the second \<^verbatim>\<open>map\<close>.\<close>

definition add_computed :: "cleaned \<Rightarrow> enriched" where
  "add_computed record = cleaned.extend record
     (enriched.fields
        (num_add (electricite_kwh record) (gaz_kwh record))
        (if num_gt (surface_m2 record) (Fin 0)
         then num_div (Math_round (num_mul (num_div
                (num_add (electricite_kwh record) (gaz_kwh record)) (surface_m2 record)) (Fin 10)))
                (Fin 10)
         else Fin 0)
        (if num_gt (surface_m2 record) (Fin 0)
         then num_div (Math_round (num_mul (num_div
                (eau_m3 record) (surface_m2 record)) (Fin 100))) (Fin 100)
         else Fin 0)
        (getConsumptionLevel (num_add (electricite_kwh record) (gaz_kwh record))
           (surface_m2 record)))"

text \<open>
  Step 4, \<^verbatim>\<open>Array.prototype.sort\<close> with a comparison function. The language takes a
  \<^verbatim>\<open>NaN\<close> from the comparison function as \<^verbatim>\<open>+0\<close> and asks for a stable sort: an element
  moves behind another only when the comparison says it is greater. Insertion from the right
  is such a sort. (With a comparison function that is not consistent the language leaves the
  order to the implementation; the model then gives what insertion gives.)
\<close>

definition SortCompare :: "('a \<Rightarrow> 'a \<Rightarrow> jsnum) \<Rightarrow> 'a \<Rightarrow> 'a \<Rightarrow> jsnum" where
  "SortCompare comparefn x y = (let v = comparefn x y in if v = NaN then Fin 0 else v)"

fun sort_insert :: "('a \<Rightarrow> 'a \<Rightarrow> jsnum) \<Rightarrow> 'a \<Rightarrow> 'a list \<Rightarrow> 'a list" where
  "sort_insert comparefn x [] = [x]"
| "sort_insert comparefn x (y # ys) =
     (if num_gt (SortCompare comparefn x y) (Fin 0) then y # sort_insert comparefn x ys
      else x # y # ys)"

fun Array_sort :: "('a \<Rightarrow> 'a \<Rightarrow> jsnum) \<Rightarrow> 'a list \<Rightarrow> 'a list" where
  "Array_sort comparefn [] = []"
| "Array_sort comparefn (x # xs) = sort_insert comparefn x (Array_sort comparefn xs)"

text \<open>\<^verbatim>\<open>(a, b) => b.energie_totale_kwh - a.energie_totale_kwh\<close>\<close>

definition by_total_desc :: "enriched \<Rightarrow> enriched \<Rightarrow> jsnum" where
  "by_total_desc a b = num_sub (energie_totale_kwh b) (energie_totale_kwh a)"

definition transform :: "raw_record list \<Rightarrow> error + enriched list" where
  "transform rawData =
     (case map_result rename_fields rawData of
        Inl e \<Rightarrow> Inl e
      | Inr renamed \<Rightarrow>
          Inr (Array_sort by_total_desc (map add_computed (filter is_valid renamed))))"

subsection \<open>\<^verbatim>\<open>extract\<close> and \<^verbatim>\<open>load\<close>\<close>

text \<open>
  \<^verbatim>\<open>extract\<close> (here \<open>extract_stage\<close>) reads \<^verbatim>\<open>RAW_API_RESPONSE.resultats\<close>, imported
  from \<^verbatim>\<open>../data/rawData.js\<close>, which is not among the sources: the array is a parameter
  here, \<open>None\<close> when the property is absent. \<^verbatim>\<open>JSON.parse(JSON.stringify(x))\<close> copies the records: a property holding
  \<^verbatim>\<open>undefined\<close> is dropped, a Number that is not finite becomes \<^verbatim>\<open>null\<close>, every other scalar
  stays; of \<^verbatim>\<open>undefined\<close> itself \<^verbatim>\<open>JSON.stringify\<close> gives \<^verbatim>\<open>undefined\<close>, which
  \<^verbatim>\<open>JSON.parse\<close> rejects with a \<^verbatim>\<open>SyntaxError\<close>.
\<close>

fun json_value :: "jsval \<Rightarrow> jsval option" where
  "json_value JUndefined = None"
| "json_value (JNum (Fin x)) = Some (JNum (Fin x))"
| "json_value (JNum n) = Some JNull"
| "json_value v = Some v"

definition json_copy :: "raw_record \<Rightarrow> raw_record" where
  "json_copy record = (\<lambda>name. case record name of None \<Rightarrow> None | Some v \<Rightarrow> json_value v)"

definition extract_stage :: "raw_record list option \<Rightarrow> error + raw_record list" where
  "extract_stage resultats =
     (case resultats of None \<Rightarrow> Inl SyntaxError | Some records \<Rightarrow> Inr (map json_copy records))"

definition load :: "enriched list \<Rightarrow> enriched list" where
  "load transformedData = transformedData"

subsection \<open>\<^verbatim>\<open>runETLPipeline\<close>\<close>

text \<open>
  The module state is \<^verbatim>\<open>processedData\<close> and \<^verbatim>\<open>isProcessing\<close>. Around it the model keeps
  what the event loop holds, the runs suspended at an \<^verbatim>\<open>await delay(...)\<close> with the values
  they have computed so far and their callback, and what the outside has seen: the calls of
  \<^verbatim>\<open>onStepUpdate\<close> and the \<^verbatim>\<open>etl:complete\<close> events, in order.
\<close>

datatype effect = StepUpdate string string | EtlComplete "enriched list"

text \<open>
  \<^verbatim>\<open>onStepUpdate\<close> is \<open>None\<close> when the caller passes none; otherwise the function tells
  whether the call returns (\<open>None\<close>) or throws.
\<close>

type_synonym callback = "(string \<Rightarrow> string \<Rightarrow> error option) option"

datatype suspended =
  AwaitDelay600
| AwaitDelay800 "raw_record list"
| AwaitDelay500 "enriched list"

record system =
  processedData :: "enriched list"
  isProcessing :: bool
  pending :: "(suspended \<times> callback) list"
  effects :: "effect list"

definition initial :: system where
  "initial = \<lparr> processedData = [], isProcessing = False, pending = [], effects = [] \<rparr>"

definition getData :: "system \<Rightarrow> enriched list" where
  "getData s = processedData s"

definition isETLProcessing :: "system \<Rightarrow> bool" where
  "isETLProcessing s = isProcessing s"

text \<open>The promise a call returns: still pending, resolved with a value, or rejected.\<close>

datatype outcome = Pending | Resolved "enriched list" | Rejected error

text \<open>\<^verbatim>\<open>onStepUpdate?.(step, state)\<close>\<close>

definition step_update :: "callback \<Rightarrow> string \<Rightarrow> string \<Rightarrow> system \<Rightarrow> error option \<times> system" where
  "step_update onStepUpdate step state s =
     (case onStepUpdate of
        None \<Rightarrow> (None, s)
      | Some f \<Rightarrow> (f step state, s\<lparr>effects := effects s @ [StepUpdate step state]\<rparr>))"

text \<open>
  A call of \<^verbatim>\<open>runETLPipeline\<close> runs to its first \<^verbatim>\<open>await\<close>. With \<^verbatim>\<open>isProcessing\<close> set it
  returns \<^verbatim>\<open>processedData\<close> at once. An error inside \<^verbatim>\<open>try\<close> passes through \<^verbatim>\<open>finally\<close>,
  which clears the flag. The code between two \<^verbatim>\<open>await\<close>s runs without interruption (one
  thread), so each such stretch is one step of the model; the length of a delay plays no
  part.
\<close>

definition runETLPipeline :: "callback \<Rightarrow> system \<Rightarrow> outcome \<times> system" where
  "runETLPipeline onStepUpdate s =
     (if isProcessing s then (Resolved (processedData s), s)
      else case step_update onStepUpdate ''extract'' ''active'' (s\<lparr>isProcessing := True\<rparr>) of
             (Some e, s1) \<Rightarrow> (Rejected e, s1\<lparr>isProcessing := False\<rparr>)
           | (None, s1) \<Rightarrow>
               (Pending, s1\<lparr>pending := pending s1 @ [(AwaitDelay600, onStepUpdate)]\<rparr>))"

text \<open>
  Two calls of \<^verbatim>\<open>onStepUpdate\<close> in a row, then the next \<^verbatim>\<open>await\<close>: the end of the first and
  of the second stage.
\<close>

definition next_stage ::
  "callback \<Rightarrow> string \<Rightarrow> string \<Rightarrow> suspended \<Rightarrow> system \<Rightarrow> outcome \<times> system" where
  "next_stage onStepUpdate done_step active_step point s =
     (case step_update onStepUpdate done_step ''done'' s of
        (Some e, s1) \<Rightarrow> (Rejected e, s1\<lparr>isProcessing := False\<rparr>)
      | (None, s1) \<Rightarrow>
          (case step_update onStepUpdate active_step ''active'' s1 of
             (Some e, s2) \<Rightarrow> (Rejected e, s2\<lparr>isProcessing := False\<rparr>)
           | (None, s2) \<Rightarrow> (Pending, s2\<lparr>pending := pending s2 @ [(point, onStepUpdate)]\<rparr>)))"

text \<open>A suspended run goes on when its delay has elapsed, up to its next \<^verbatim>\<open>await\<close> or its end.\<close>

definition resume ::
  "raw_record list option \<Rightarrow> suspended \<times> callback \<Rightarrow> system \<Rightarrow> outcome \<times> system" where
  "resume resultats run s =
     (case run of (point, onStepUpdate) \<Rightarrow>
        (case point of
           AwaitDelay600 \<Rightarrow>
             (case extract_stage resultats of
                Inl e \<Rightarrow> (Rejected e, s\<lparr>isProcessing := False\<rparr>)
              | Inr rawData \<Rightarrow>
                  next_stage onStepUpdate ''extract'' ''transform'' (AwaitDelay800 rawData) s)
         | AwaitDelay800 rawData \<Rightarrow>
             (case transform rawData of
                Inl e \<Rightarrow> (Rejected e, s\<lparr>isProcessing := False\<rparr>)
              | Inr transformedData \<Rightarrow>
                  next_stage onStepUpdate ''transform'' ''load'' (AwaitDelay500 transformedData) s)
         | AwaitDelay500 transformedData \<Rightarrow>
             (case step_update onStepUpdate ''load'' ''done''
                     (s\<lparr>processedData := load transformedData\<rparr>) of
                (Some e, s1) \<Rightarrow> (Rejected e, s1\<lparr>isProcessing := False\<rparr>)
              | (None, s1) \<Rightarrow>
                  (Resolved (processedData s1),
                   s1\<lparr>effects := effects s1 @ [EtlComplete (processedData s1)],
                      isProcessing := False\<rparr>))))"

text \<open>
  What happens to the system: somebody calls \<^verbatim>\<open>runETLPipeline\<close>, or the delay of the
  \<open>i\<close>-th suspended run elapses.
\<close>

datatype event = Start callback | DelayElapsed nat

definition step :: "raw_record list option \<Rightarrow> event \<Rightarrow> system \<Rightarrow> outcome \<times> system" where
  "step resultats ev s =
     (case ev of
        Start onStepUpdate \<Rightarrow> runETLPipeline onStepUpdate s
      | DelayElapsed i \<Rightarrow>
          if i < length (pending s)
          then resume resultats (pending s ! i)
                 (s\<lparr>pending := take i (pending s) @ drop (Suc i) (pending s)\<rparr>)
          else (Pending, s))"

fun run_events :: "raw_record list option \<Rightarrow> event list \<Rightarrow> system \<Rightarrow> system" where
  "run_events resultats [] s = s"
| "run_events resultats (ev # evs) s = run_events resultats evs (snd (step resultats ev s))"

text \<open>
  The invariant of the orchestrator: the flag is set exactly while a run is suspended, and
  no two runs are.
\<close>

definition single_run :: "system \<Rightarrow> bool" where
  "single_run s = ((isProcessing s \<longleftrightarrow> pending s \<noteq> []) \<and> length (pending s) \<le> 1)"

subsection \<open>Sample records\<close>

text \<open>The record of the specification's example, and one without electricity consumption.\<close>

definition ecole_pasteur :: raw_record where
  "ecole_pasteur = map_of
     [(''nom_batiment'', JStr (CHR 0xC9 # ''cole Pasteur'')),
      (''type_infra'', JStr ''ECOLE''),
      (''conso_elec_kwh'', JStr ''15000''),
      (''conso_gaz_kwh'', JStr ''8000''),
      (''surface_m2'', JStr ''500''),
      (''lat'', JStr ''45.75''),
      (''lng'', JStr ''4.83'')]"

text \<open>What the specification's example becomes (the longitude is the binary64 nearest to 4.83).\<close>

definition ecole_pasteur_enriched :: enriched where
  "ecole_pasteur_enriched =
     \<lparr> nom = CHR 0xC9 # ''cole Pasteur'', type = CHR 0xC9 # ''cole'', adresse = [],
       electricite_kwh = Fin 15000, gaz_kwh = Fin 8000, eau_m3 = Fin 0,
       surface_m2 = Fin 500, annee = Fin 0, latitude = Fin (183 / 4),
       longitude = Fin (2719048275024937 / 562949953421312), classe_dpe = [],
       occupants = Fin 0, energie_totale_kwh = Fin 23000,
       intensite_energetique = Fin 46, intensite_eau = Fin 0,
       niveau_conso = ''medium'' \<rparr>"

definition no_electricity :: raw_record where
  "no_electricity = map_of
     [(''nom_batiment'', JStr ''Piscine Nord''),
      (''type_infra'', JStr ''PISCINE''),
      (''conso_elec_kwh'', JStr ''0''),
      (''conso_gaz_kwh'', JStr ''12000''),
      (''surface_m2'', JStr ''900''),
      (''lat'', JStr ''45.5''),
      (''lng'', JStr ''4.5'')]"

text \<open>
  Records at the edges: a consumption written \<^verbatim>\<open>Infinity\<close>, a negative gas consumption,
  electricity and gas that cancel into \<^verbatim>\<open>NaN\<close>, a type code that is a number, a type code
  that is not in the table, three records around the thresholds of the consumption level,
  and one whose total equals that of another.
\<close>

definition infinite_electricity :: raw_record where
  "infinite_electricity = map_of
     [(''nom_batiment'', JStr ''Mairie''),
      (''type_infra'', JStr ''MAIRIE''),
      (''conso_elec_kwh'', JStr ''Infinity''),
      (''surface_m2'', JStr ''100''),
      (''lat'', JStr ''45''),
      (''lng'', JStr ''4'')]"

definition negative_gas :: raw_record where
  "negative_gas = map_of
     [(''nom_batiment'', JStr ''Gymnase''),
      (''type_infra'', JStr ''GYMNASE''),
      (''conso_elec_kwh'', JStr ''500''),
      (''conso_gaz_kwh'', JStr ''-100''),
      (''lat'', JStr ''45''),
      (''lng'', JStr ''4'')]"

definition nan_total :: raw_record where
  "nan_total = map_of
     [(''nom_batiment'', JStr ''A''),
      (''conso_elec_kwh'', JStr ''Infinity''),
      (''conso_gaz_kwh'', JStr ''-Infinity''),
      (''lat'', JStr ''45''),
      (''lng'', JStr ''4'')]"

definition small_total :: raw_record where
  "small_total = map_of
     [(''nom_batiment'', JStr ''B''),
      (''conso_elec_kwh'', JStr ''5''),
      (''lat'', JStr ''45''),
      (''lng'', JStr ''4'')]"

definition numeric_type :: raw_record where
  "numeric_type = map_of
     [(''nom_batiment'', JStr ''C''),
      (''type_infra'', JNum (Fin 42)),
      (''conso_elec_kwh'', JStr ''5''),
      (''lat'', JStr ''45''),
      (''lng'', JStr ''4'')]"

definition unknown_type :: raw_record where
  "unknown_type = map_of
     [(''nom_batiment'', JStr ''D''),
      (''type_infra'', JStr ''STADE''),
      (''conso_elec_kwh'', JStr ''5''),
      (''lat'', JStr ''45''),
      (''lng'', JStr ''4'')]"

definition intensity_30 :: raw_record where
  "intensity_30 = map_of
     [(''nom_batiment'', JStr ''E''),
      (''conso_elec_kwh'', JStr ''2000''),
      (''conso_gaz_kwh'', JStr ''1000''),
      (''surface_m2'', JStr ''100''),
      (''lat'', JStr ''45''),
      (''lng'', JStr ''4'')]"

definition intensity_60 :: raw_record where
  "intensity_60 = map_of
     [(''nom_batiment'', JStr ''F''),
      (''conso_elec_kwh'', JStr ''6000''),
      (''surface_m2'', JStr ''100''),
      (''lat'', JStr ''45''),
      (''lng'', JStr ''4'')]"

definition intensity_below_30 :: raw_record where
  "intensity_below_30 = map_of
     [(''nom_batiment'', JStr ''G''),
      (''conso_elec_kwh'', JStr ''2996''),
      (''surface_m2'', JStr ''100''),
      (''lat'', JStr ''45''),
      (''lng'', JStr ''4'')]"

definition tie_3000 :: raw_record where
  "tie_3000 = map_of
     [(''nom_batiment'', JStr ''H''),
      (''conso_elec_kwh'', JStr ''3000''),
      (''lat'', JStr ''45''),
      (''lng'', JStr ''4'')]"

text \<open>What five of these records become.\<close>

definition tie_3000_enriched :: enriched where
  "tie_3000_enriched =
     \<lparr> nom = ''H'', type = ''Autre'', adresse = [], electricite_kwh = Fin 3000,
       gaz_kwh = Fin 0, eau_m3 = Fin 0, surface_m2 = Fin 0, annee = Fin 0,
       latitude = Fin 45, longitude = Fin 4, classe_dpe = [], occupants = Fin 0,
       energie_totale_kwh = Fin 3000, intensite_energetique = Fin 0, intensite_eau = Fin 0,
       niveau_conso = ''medium'' \<rparr>"


definition unknown_type_cleaned :: cleaned where
  "unknown_type_cleaned =
     \<lparr> nom = ''D'', type = ''STADE'', adresse = [], electricite_kwh = Fin 5, gaz_kwh = Fin 0,
       eau_m3 = Fin 0, surface_m2 = Fin 0, annee = Fin 0, latitude = Fin 45,
       longitude = Fin 4, classe_dpe = [], occupants = Fin 0 \<rparr>"

definition negative_gas_enriched :: enriched where
  "negative_gas_enriched =
     \<lparr> nom = ''Gymnase'', type = ''Gymnase'', adresse = [], electricite_kwh = Fin 500,
       gaz_kwh = Fin (- 100), eau_m3 = Fin 0, surface_m2 = Fin 0, annee = Fin 0,
       latitude = Fin 45, longitude = Fin 4, classe_dpe = [], occupants = Fin 0,
       energie_totale_kwh = Fin 400, intensite_energetique = Fin 0, intensite_eau = Fin 0,
       niveau_conso = ''medium'' \<rparr>"

definition intensity_30_enriched :: enriched where
  "intensity_30_enriched =
     \<lparr> nom = ''E'', type = ''Autre'', adresse = [], electricite_kwh = Fin 2000,
       gaz_kwh = Fin 1000, eau_m3 = Fin 0, surface_m2 = Fin 100, annee = Fin 0,
       latitude = Fin 45, longitude = Fin 4, classe_dpe = [], occupants = Fin 0,
       energie_totale_kwh = Fin 3000, intensite_energetique = Fin 30, intensite_eau = Fin 0,
       niveau_conso = ''medium'' \<rparr>"

definition intensity_60_enriched :: enriched where
  "intensity_60_enriched =
     \<lparr> nom = ''F'', type = ''Autre'', adresse = [], electricite_kwh = Fin 6000,
       gaz_kwh = Fin 0, eau_m3 = Fin 0, surface_m2 = Fin 100, annee = Fin 0,
       latitude = Fin 45, longitude = Fin 4, classe_dpe = [], occupants = Fin 0,
       energie_totale_kwh = Fin 6000, intensite_energetique = Fin 60, intensite_eau = Fin 0,
       niveau_conso = ''high'' \<rparr>"

text \<open>
  A callback that returns every time, and a system in the middle of a run, with the
  specification's example published by an earlier run.
\<close>

definition quiet_callback :: callback where
  "quiet_callback = Some (\<lambda>step state. None)"

definition running_system :: system where
  "running_system =
     \<lparr> processedData = [ecole_pasteur_enriched], isProcessing = True, pending = [],
       effects = [] \<rparr>"

section \<open>Properties\<close>

subsection \<open>The binary exponent and the rounding\<close>

lemma powi_Suc: "(B::rat) \<noteq> 0 \<Longrightarrow> B powi (k + 1) = B * B powi k"
  by (simp add: power_int_add)

lemma log_up_bounds:
  assumes "2 \<le> b" "1 \<le> x"
  shows "0 \<le> log_up b x \<and> of_nat b powi (log_up b x) \<le> x \<and> x < of_nat b powi (log_up b x + 1)"
  using assms
proof (induction b x rule: log_up.induct)
  case (1 b x)
  define B :: rat where "B = of_nat b"
  have B: "0 < B" using 1 by (simp add: B_def)
  show ?case
  proof (cases "B \<le> x")
    case True
    then have step: "log_up b x = log_up b (x / B) + 1"
      using "1.prems" unfolding B_def by (subst log_up.simps) simp
    have x1: "1 \<le> x / B" using True B by (simp add: pos_le_divide_eq)
    define k where "k = log_up b (x / B)"
    have IH: "0 \<le> k \<and> B powi k \<le> x / B \<and> x / B < B powi (k + 1)"
      using "1.IH" True "1.prems" x1 unfolding B_def k_def by simp
    have a: "B * B powi k \<le> x"
      using IH B by (simp add: pos_le_divide_eq mult.commute)
    have c: "x < B * B powi (k + 1)"
      using IH B by (simp add: pos_divide_less_eq mult.commute)
    have "B powi (k + 1) \<le> x" using a B by (simp add: powi_Suc)
    moreover have "x < B powi (k + 1 + 1)" using c B powi_Suc[of B "k + 1"] by simp
    ultimately show ?thesis using IH unfolding step k_def[symmetric] B_def[symmetric] by simp
  next
    case False
    then have "log_up b x = 0" unfolding B_def by (subst log_up.simps) simp
    then show ?thesis using False "1.prems" unfolding B_def by simp
  qed
qed

lemma log_down_bounds:
  assumes "2 \<le> b" "0 < x" "x < 1"
  shows "log_down b x < 0 \<and> of_nat b powi (log_down b x) \<le> x \<and> x < of_nat b powi (log_down b x + 1)"
  using assms
proof (induction b x rule: log_down.induct)
  case (1 b x)
  define B :: rat where "B = of_nat b"
  have B: "0 < B" using 1 by (simp add: B_def)
  have step: "log_down b x = log_down b (B * x) - 1"
    using "1.prems" unfolding B_def by (subst log_down.simps) simp
  define k where "k = log_down b (B * x)"
  have pos: "0 < B * x" using B "1.prems" by simp
  show ?case
  proof (cases "B * x < 1")
    case True
    have IH: "k < 0 \<and> B powi k \<le> B * x \<and> B * x < B powi (k + 1)"
      using "1.IH" True "1.prems" pos unfolding k_def B_def by simp
    have e: "B powi k = B * B powi (k - 1)"
      using powi_Suc[of B "k - 1"] B by simp
    have e2: "B powi (k + 1) = B * B powi k"
      using powi_Suc[of B k] B by simp
    have "B powi (k - 1) \<le> x" using IH B unfolding e by simp
    moreover have "x < B powi (k - 1 + 1)" using IH B unfolding e2 by simp
    ultimately show ?thesis using IH unfolding step k_def[symmetric] B_def[symmetric] by simp
  next
    case False
    then have k0: "k = 0" unfolding k_def by (subst log_down.simps) simp
    have "B powi (- 1) \<le> x"
      using False B by (simp add: power_int_minus field_simps)
    then show ?thesis using "1.prems" unfolding step k_def[symmetric] B_def[symmetric] k0 by simp
  qed
qed

lemma floor_log_bounds:
  assumes "2 \<le> b" "0 < x"
  shows "of_nat b powi (floor_log b x) \<le> x" and "x < of_nat b powi (floor_log b x + 1)"
  using log_up_bounds[OF assms(1), of x] log_down_bounds[OF assms] 
  by (auto simp: floor_log_def not_le)

lemma round_half_even_ge_floor: "\<lfloor>y\<rfloor> \<le> round_half_even y"
  by (simp add: round_half_even_def Let_def)

lemma round_half_even_of_int: "round_half_even (of_int k) = k"
  by (simp add: round_half_even_def Let_def)

lemma two_powi_split: "j \<le> k \<Longrightarrow> (2::rat) powi k = of_int (2 ^ nat (k - j)) * 2 powi j"
proof -
  assume "j \<le> k"
  then have "(2::rat) powi k = 2 powi (int (nat (k - j)) + j)" by simp
  also have "\<dots> = 2 powi (int (nat (k - j))) * 2 powi j" by (rule power_int_add) simp
  also have "(2::rat) powi (int (nat (k - j))) = of_int (2 ^ nat (k - j))"
    by (simp only: power_int_of_nat of_int_power of_int_numeral)
  finally show ?thesis .
qed

text \<open>Every finite result of the rounding is a multiple of the least subnormal.\<close>

lemma round64_grid:
  assumes "round64 x = Fin v" and g: "g \<le> - 1074"
  shows "\<exists>k::int. v = of_int k * 2 powi g"
proof (cases "x = 0")
  case True
  then have "v = 0" using assms by (simp add: round64_def)
  then show ?thesis by (intro exI[of _ 0]) simp
next
  case False
  define e where "e = max (floor_log 2 \<bar>x\<bar>) (- 1022)"
  define n where "n = round_half_even (\<bar>x\<bar> / 2 powi (e - 52))"
  have v: "v = (if 0 < x then of_int n * 2 powi (e - 52) else - (of_int n * 2 powi (e - 52)))"
    using assms(1) False unfolding round64_def Let_def e_def[symmetric] n_def[symmetric]
    by (auto split: if_splits)
  have "g \<le> e - 52" using g by (simp add: e_def)
  from two_powi_split[OF this]
  have q: "(2::rat) powi (e - 52) = of_int (2 ^ nat (e - 52 - g)) * 2 powi g" .
  show ?thesis
  proof (cases "0 < x")
    case True
    then have "v = of_int (n * 2 ^ nat (e - 52 - g)) * 2 powi g"
      using v unfolding q by simp
    then show ?thesis by blast
  next
    case False
    then have "v = of_int (- (n * 2 ^ nat (e - 52 - g))) * 2 powi g"
      using v unfolding q by simp
    then show ?thesis by blast
  qed
qed

text \<open>A non-zero multiple of the least subnormal keeps its sign when rounded.\<close>

lemma round64_scaled_ge_1:
  assumes "k \<noteq> 0" and a: "a = \<bar>of_int k * 2 powi g\<bar>" and g: "- 1074 \<le> g"
  shows "1 \<le> a / 2 powi (max (floor_log 2 a) (- 1022) - 52)"
proof -
  have apos: "0 < a" using assms by simp
  show ?thesis
  proof (cases "- 1022 \<le> floor_log 2 a")
    case True
    then have m: "max (floor_log 2 a) (- 1022) = floor_log 2 a" by simp
    have "2 powi (floor_log 2 a) \<le> a" using floor_log_bounds(1)[of 2 a] apos by simp
    moreover have "(2::rat) powi (floor_log 2 a - 52) \<le> 2 powi (floor_log 2 a)"
      by (rule power_int_increasing) auto
    ultimately have "2 powi (floor_log 2 a - 52) \<le> a" by linarith
    then show ?thesis unfolding m by (simp add: pos_le_divide_eq)
  next
    case False
    define j where "j = max (floor_log 2 a) (- 1022) - 52"
    have jg: "j \<le> g" using False g by (simp add: j_def)
    have k1: "(1::rat) \<le> of_int \<bar>k\<bar>" using \<open>k \<noteq> 0\<close> by (simp add: of_int_1_le_iff)
    have "a = of_int \<bar>k\<bar> * 2 powi g" using a by (simp add: abs_mult)
    also have "\<dots> = of_int \<bar>k\<bar> * (of_int (2 ^ nat (g - j)) * 2 powi j)"
      using two_powi_split[OF jg] by simp
    finally have "a / 2 powi j = of_int \<bar>k\<bar> * of_int (2 ^ nat (g - j))" by simp
    moreover have "(1::rat) \<le> of_int (2 ^ nat (g - j))" by simp
    ultimately have "1 * 1 \<le> a / 2 powi j" using k1
      by (metis mult_mono zero_le_one order_trans[OF zero_le_one k1])
    then show ?thesis unfolding j_def by simp
  qed
qed

lemma round64_sign:
  assumes "k \<noteq> 0" and d: "d = of_int k * 2 powi g" and g: "- 1074 \<le> g"
  shows "0 < d \<Longrightarrow> num_lt (Fin 0) (round64 d)" and "d < 0 \<Longrightarrow> num_lt (round64 d) (Fin 0)"
proof -
  define a where "a = \<bar>d\<bar>"
  define q :: rat where "q = 2 powi (max (floor_log 2 a) (- 1022) - 52)"
  define n where "n = round_half_even (a / q)"
  have "1 \<le> a / q" unfolding q_def using round64_scaled_ge_1[OF assms(1) _ g, of a] d a_def by simp
  then have "1 \<le> \<lfloor>a / q\<rfloor>" by (simp add: le_floor_iff)
  then have n: "1 \<le> n" using round_half_even_ge_floor[of "a / q"] unfolding n_def by linarith
  have qpos: "0 < q" by (simp add: q_def)
  have npos: "0 < of_int n * q" using n qpos by simp
  have dnz: "d \<noteq> 0" using assms by simp
  have r: "round64 d = (if 1023 < max (floor_log 2 a) (- 1022) \<or> (max (floor_log 2 a) (- 1022) = 1023 \<and> n = 2 ^ 53)
       then (if 0 < d then PInf else NInf)
       else Fin (if 0 < d then of_int n * q else - (of_int n * q)))"
    using dnz unfolding round64_def Let_def a_def[symmetric] q_def[symmetric] n_def[symmetric] by simp
  show "0 < d \<Longrightarrow> num_lt (Fin 0) (round64 d)" using npos unfolding r by simp
  show "d < 0 \<Longrightarrow> num_lt (round64 d) (Fin 0)" using npos unfolding r by simp
qed

text \<open>The difference of two finite results has the sign of its rounding.\<close>

lemma round64_diff_sign:
  assumes "round64 x = Fin u" "round64 y = Fin v"
  shows "num_lt (Fin 0) (round64 (u - v)) \<longleftrightarrow> v < u"
    and "num_lt (round64 (u - v)) (Fin 0) \<longleftrightarrow> u < v"
proof -
  obtain i j :: int where u: "u = of_int i * 2 powi (- 1074)" and v: "v = of_int j * 2 powi (- 1074)"
    using round64_grid[OF assms(1), of "- 1074"] round64_grid[OF assms(2), of "- 1074"] by auto
  have d: "u - v = of_int (i - j) * 2 powi (- 1074)"
    unfolding u v by (simp only: of_int_diff left_diff_distrib)
  have z: "u = v \<Longrightarrow> round64 (u - v) = Fin 0" by (simp add: round64_def)
  have ij: "u \<noteq> v \<Longrightarrow> i - j \<noteq> 0" unfolding u v by auto
  have p: "v < u \<Longrightarrow> num_lt (Fin 0) (round64 (u - v))"
    using round64_sign(1)[OF ij d] by simp
  have n: "u < v \<Longrightarrow> num_lt (round64 (u - v)) (Fin 0)"
    using round64_sign(2)[OF ij d] by simp
  have asym: "\<not> (num_lt (Fin 0) c \<and> num_lt c (Fin 0))" for c by (cases c) auto
  show "num_lt (Fin 0) (round64 (u - v)) \<longleftrightarrow> v < u"
    using p n z asym[of "round64 (u - v)"] by (cases u v rule: linorder_cases) auto
  show "num_lt (round64 (u - v)) (Fin 0) \<longleftrightarrow> u < v"
    using p n z asym[of "round64 (u - v)"] by (cases u v rule: linorder_cases) auto
qed

lemma two_powi_less_imp: "(2::rat) powi i < 2 powi j \<Longrightarrow> i < j"
  using power_int_increasing[of j i "2::rat"] by (cases "i < j") auto

text \<open>A value with a significand below \<open>2\<^bsup>53\<^esup>\<close> and an exponent in range is its own rounding.\<close>

lemma round64_exact:
  assumes m: "\<bar>m\<bar> < 2 ^ 53" and k: "- 1074 \<le> k" "k \<le> 971"
  shows "round64 (of_int m * 2 powi k) = Fin (of_int m * 2 powi k)"
proof (cases "m = 0")
  case True
  then show ?thesis by (simp add: round64_def)
next
  case False
  define x :: rat where "x = of_int m * 2 powi k"
  define a where "a = \<bar>x\<bar>"
  define e where "e = max (floor_log 2 a) (- 1022)"
  define n where "n = round_half_even (a / 2 powi (e - 52))"
  have a: "a = of_int \<bar>m\<bar> * 2 powi k" by (simp add: a_def x_def abs_mult)
  have apos: "0 < a" using False by (simp add: a)
  have xnz: "x \<noteq> 0" using apos a_def by auto
  have lo: "2 powi (floor_log 2 a) \<le> a" and hi: "a < 2 powi (floor_log 2 a + 1)"
    using floor_log_bounds[of 2 a] apos by simp_all
  have "(of_int \<bar>m\<bar> :: rat) < of_int (2 ^ 53)" using m by (simp only: of_int_less_iff)
  then have "(of_int \<bar>m\<bar> :: rat) < 2 powi 53" by simp
  then have "a < 2 powi 53 * 2 powi k" unfolding a by (simp add: mult_strict_right_mono)
  also have "\<dots> = 2 powi (53 + k)" by (rule power_int_add[symmetric]) simp
  finally have a_lt: "a < 2 powi (53 + k)" .
  then have "(2::rat) powi (floor_log 2 a) < 2 powi (53 + k)" using lo by linarith
  then have fl: "floor_log 2 a < 53 + k" by (rule two_powi_less_imp)
  have jk: "e - 52 \<le> k" using fl k by (simp add: e_def)
  have e1023: "e \<le> 1023" using fl k by (simp add: e_def)
  have spl: "(2::rat) powi k = of_int (2 ^ nat (k - (e - 52))) * 2 powi (e - 52)"
    using two_powi_split[OF jk] .
  have scaled: "a / 2 powi (e - 52) = of_int (\<bar>m\<bar> * 2 ^ nat (k - (e - 52)))"
    unfolding a by (subst spl) simp
  have n: "n = \<bar>m\<bar> * 2 ^ nat (k - (e - 52))"
    unfolding n_def scaled by (rule round_half_even_of_int)
  have nq: "of_int n * 2 powi (e - 52) = a"
    using scaled unfolding n by (simp add: field_simps)
  have no_carry: "\<not> (e = 1023 \<and> n = 2 ^ 53)"
  proof
    assume h: "e = 1023 \<and> n = 2 ^ 53"
    then have "floor_log 2 a = 1023" by (simp add: e_def max_def split: if_splits)
    then have "a < 2 powi 1024" using hi by simp
    also have "(2::rat) powi 1024 = 2 powi 53 * 2 powi 971" by (subst power_int_add[symmetric]) simp_all
    finally have "a < of_int (2 ^ 53) * 2 powi 971" by simp
    moreover have "a = of_int (2 ^ 53) * 2 powi 971" using nq h by simp
    ultimately show False by simp
  qed
  have "round64 x = Fin (if 0 < x then of_int n * 2 powi (e - 52) else - (of_int n * 2 powi (e - 52)))"
    using xnz e1023 no_carry
    unfolding round64_def Let_def a_def[symmetric] e_def[symmetric] n_def[symmetric] by simp
  also have "\<dots> = Fin x" unfolding nq using xnz by (simp add: a_def)
  finally show ?thesis unfolding x_def .
qed

lemma round64_of_int:
  assumes "\<bar>m\<bar> < 2 ^ 53"
  shows "round64 (of_int m) = Fin (of_int m)"
  using round64_exact[OF assms, of 0] by simp

text \<open>
  An integer below \<open>2\<^bsup>53\<^esup>\<close> is its own rounding, without a search for its binade: the
  equation by which the rounding of such a value is computed.
\<close>

lemma round64_code [code]:
  "round64 x =
     (if of_int \<lfloor>x\<rfloor> = x \<and> \<bar>x\<bar> < 9007199254740992 then Fin x
      else if x = 0 then Fin 0
      else let a = \<bar>x\<bar>;
               e = max (floor_log 2 a) (- 1022);
               q = 2 powi (e - 52);
               n = round_half_even (a / q)
           in if 1023 < e \<or> (e = 1023 \<and> n = 2 ^ 53) then (if 0 < x then PInf else NInf)
              else Fin (if 0 < x then of_int n * q else - (of_int n * q)))"
proof (cases "of_int \<lfloor>x\<rfloor> = x \<and> \<bar>x\<bar> < 9007199254740992")
  case True
  then have eq: "of_int \<lfloor>x\<rfloor> = x" and lt: "\<bar>x\<bar> < 9007199254740992" by blast+
  have "\<bar>of_int \<lfloor>x\<rfloor> :: rat\<bar> < of_int 9007199254740992" unfolding eq using lt by simp
  then have "\<bar>\<lfloor>x\<rfloor>\<bar> < 9007199254740992" by (simp only: of_int_abs[symmetric] of_int_less_iff)
  then have "round64 (of_int \<lfloor>x\<rfloor>) = Fin (of_int \<lfloor>x\<rfloor>)" by (intro round64_of_int) simp
  then have "round64 x = Fin x" unfolding eq .
  then show ?thesis using True by (simp only: if_True simp_thms)
next
  case False
  show ?thesis by (subst if_not_P[OF False]) (rule round64_def)
qed

subsection \<open>The stages of \<^verbatim>\<open>transform\<close>\<close>

lemma map_result_Inr_iff: "map_result f xs = Inr ys \<longleftrightarrow> map f xs = map Inr ys"
proof (induction xs arbitrary: ys)
  case Nil
  then show ?case by auto
next
  case (Cons x xs)
  show ?case
  proof (cases "f x")
    case (Inl e)
    then show ?thesis by (cases ys) auto
  next
    case (Inr y)
    show ?thesis
    proof (cases "map_result f xs")
      case (Inl e)
      then have "\<And>zs. map f xs \<noteq> map Inr zs" using Cons.IH by simp
      with Inl Inr show ?thesis by (cases ys) auto
    next
      case r: (Inr zs)
      then have "map f xs = map Inr zs" using Cons.IH by simp
      with r Inr show ?thesis by (cases ys) (auto simp: inj_map_eq_map[OF inj_Inr])
    qed
  qed
qed

lemma map_result_member:
  assumes "map_result f xs = Inr ys" "x \<in> set xs"
  shows "\<exists>y \<in> set ys. f x = Inr y"
proof -
  have "map f xs = map Inr ys" using assms(1) by (simp add: map_result_Inr_iff)
  moreover have "f x \<in> set (map f xs)" using assms(2) by simp
  ultimately have "f x \<in> set (map Inr ys)" by (simp only:)
  then show ?thesis by auto
qed

lemma map_result_origin:
  assumes "map_result f xs = Inr ys" "y \<in> set ys"
  shows "\<exists>x \<in> set xs. f x = Inr y"
proof -
  have "map f xs = map Inr ys" using assms(1) by (simp add: map_result_Inr_iff)
  moreover have "Inr y \<in> set (map Inr ys)" using assms(2) by simp
  ultimately have "Inr y \<in> set (map f xs)" by (simp only:)
  then show ?thesis by auto
qed

lemma set_sort_insert: "set (sort_insert f x ys) = insert x (set ys)"
  by (induction ys) auto

lemma set_Array_sort: "set (Array_sort f xs) = set xs"
  by (induction xs) (auto simp: set_sort_insert)

lemma length_sort_insert: "length (sort_insert f x ys) = Suc (length ys)"
  by (induction ys) auto

lemma length_Array_sort: "length (Array_sort f xs) = length xs"
  by (induction xs) (auto simp: length_sort_insert)

lemma transform_Inr:
  assumes "transform rawData = Inr out"
  obtains renamed where "map_result rename_fields rawData = Inr renamed"
    and "out = Array_sort by_total_desc (map add_computed (filter is_valid renamed))"
  using assms unfolding transform_def by (auto split: sum.splits)

lemma add_computed_fields:
  "add_computed r =
     \<lparr> nom = nom r, type = type r, adresse = adresse r,
       electricite_kwh = electricite_kwh r, gaz_kwh = gaz_kwh r, eau_m3 = eau_m3 r,
       surface_m2 = surface_m2 r, annee = annee r, latitude = latitude r,
       longitude = longitude r, classe_dpe = classe_dpe r, occupants = occupants r,
       energie_totale_kwh = num_add (electricite_kwh r) (gaz_kwh r),
       intensite_energetique =
         (if num_gt (surface_m2 r) (Fin 0)
          then num_div (Math_round (num_mul (num_div
                 (num_add (electricite_kwh r) (gaz_kwh r)) (surface_m2 r)) (Fin 10))) (Fin 10)
          else Fin 0),
       intensite_eau =
         (if num_gt (surface_m2 r) (Fin 0)
          then num_div (Math_round (num_mul (num_div (eau_m3 r) (surface_m2 r)) (Fin 100)))
                 (Fin 100)
          else Fin 0),
       niveau_conso = getConsumptionLevel (num_add (electricite_kwh r) (gaz_kwh r))
                        (surface_m2 r) \<rparr>"
  by (cases r) (simp add: add_computed_def cleaned.extend_def enriched.fields_def)

lemma truncate_add_computed: "cleaned.truncate (add_computed r) = r"
  by (cases r) (simp add: add_computed_fields cleaned.truncate_def)

lemma add_computed_inj: "add_computed r = add_computed r' \<Longrightarrow> r = r'"
  by (metis truncate_add_computed)



lemma toFloat_not_NaN: "toFloat v \<noteq> NaN"
  by (simp add: toFloat_def Let_def isNaN_num_def)

lemma rename_fields_Inr:
  assumes "rename_fields raw = Inr r"
  shows "nom r = cleanString (field raw ''nom_batiment'')"
    and "normalizeType (field raw ''type_infra'') = Inr (type r)"
    and "adresse r = cleanString (field raw ''adresse_postale'')"
    and "electricite_kwh r = toNumber (field raw ''conso_elec_kwh'')"
    and "gaz_kwh r = toNumber (field raw ''conso_gaz_kwh'')"
    and "eau_m3 r = toNumber (field raw ''conso_eau_m3'')"
    and "surface_m2 r = toNumber (field raw ''surface_m2'')"
    and "annee r = toNumber (field raw ''annee'')"
    and "latitude r = toFloat (field raw ''lat'')"
    and "longitude r = toFloat (field raw ''lng'')"
    and "classe_dpe r = cleanString (field raw ''dpe_classe'')"
    and "occupants r = or_zero (toNumber (field raw ''nb_occupants''))"
  using assms unfolding rename_fields_def by (auto split: sum.splits)

lemma is_valid_renamed:
  assumes "rename_fields raw = Inr r"
  shows "is_valid r \<longleftrightarrow>
    nom r \<noteq> [] \<and> latitude r \<noteq> Fin 0 \<and> longitude r \<noteq> Fin 0 \<and> num_gt (electricite_kwh r) (Fin 0)"
  using rename_fields_Inr(9,10)[OF assms] toFloat_not_NaN
  by (simp add: is_valid_def truthy_num_def)

text \<open>
  \<^verbatim>\<open>transform\<close> raises only through \<^verbatim>\<open>normalizeType\<close>: it returns whenever every type code
  of the batch is a string or falsy.
\<close>

lemma normalizeType_Inl_iff:
  "normalizeType v = Inl e \<longleftrightarrow> e = TypeError \<and> truthy v \<and> (\<forall>s. v \<noteq> JStr s)"
  by (cases v) (auto simp: normalizeType_def split: option.splits)

lemma map_result_Inl_iff:
  "map_result f xs = Inl e \<longleftrightarrow> (\<exists>ys x zs. xs = ys @ x # zs \<and> f x = Inl e \<and> (\<forall>y \<in> set ys. \<exists>v. f y = Inr v))"
proof (induction xs)
  case Nil
  then show ?case by simp
next
  case (Cons a xs)
  show ?case
  proof (cases "f a")
    case (Inl e')
    show ?thesis
    proof
      assume "map_result f (a # xs) = Inl e"
      then have "f a = Inl e" using Inl by simp
      then have "a # xs = [] @ a # xs \<and> f a = Inl e \<and> (\<forall>y \<in> set []. \<exists>v. f y = Inr v)" by simp
      then show "\<exists>ys x zs. a # xs = ys @ x # zs \<and> f x = Inl e \<and> (\<forall>y \<in> set ys. \<exists>v. f y = Inr v)"
        by blast
    next
      assume "\<exists>ys x zs. a # xs = ys @ x # zs \<and> f x = Inl e \<and> (\<forall>y \<in> set ys. \<exists>v. f y = Inr v)"
      then obtain ys x zs where h: "a # xs = ys @ x # zs" "f x = Inl e" "\<forall>y \<in> set ys. \<exists>v. f y = Inr v"
        by blast
      have "ys = []" using h(1,3) Inl by (cases ys) auto
      then show "map_result f (a # xs) = Inl e" using h Inl by simp
    qed
  next
    case (Inr b)
    have "map_result f (a # xs) = Inl e \<longleftrightarrow> map_result f xs = Inl e"
      using Inr by (auto split: sum.splits)
    also have "\<dots> \<longleftrightarrow> (\<exists>ys x zs. xs = ys @ x # zs \<and> f x = Inl e \<and> (\<forall>y \<in> set ys. \<exists>v. f y = Inr v))"
      by (rule Cons.IH)
    also have "\<dots> \<longleftrightarrow> (\<exists>ys x zs. a # xs = ys @ x # zs \<and> f x = Inl e \<and> (\<forall>y \<in> set ys. \<exists>v. f y = Inr v))"
    proof
      assume "\<exists>ys x zs. xs = ys @ x # zs \<and> f x = Inl e \<and> (\<forall>y \<in> set ys. \<exists>v. f y = Inr v)"
      then obtain ys x zs where h: "xs = ys @ x # zs" "f x = Inl e" "\<forall>y \<in> set ys. \<exists>v. f y = Inr v"
        by blast
      then have "a # xs = (a # ys) @ x # zs \<and> f x = Inl e \<and> (\<forall>y \<in> set (a # ys). \<exists>v. f y = Inr v)"
        using Inr by simp
      then show "\<exists>ys x zs. a # xs = ys @ x # zs \<and> f x = Inl e \<and> (\<forall>y \<in> set ys. \<exists>v. f y = Inr v)"
        by blast
    next
      assume "\<exists>ys x zs. a # xs = ys @ x # zs \<and> f x = Inl e \<and> (\<forall>y \<in> set ys. \<exists>v. f y = Inr v)"
      then obtain ys x zs where h: "a # xs = ys @ x # zs" "f x = Inl e" "\<forall>y \<in> set ys. \<exists>v. f y = Inr v"
        by blast
      then obtain ys' where "ys = a # ys'" using Inr by (cases ys) auto
      then have "xs = ys' @ x # zs \<and> f x = Inl e \<and> (\<forall>y \<in> set ys'. \<exists>v. f y = Inr v)"
        using h by simp
      then show "\<exists>ys x zs. xs = ys @ x # zs \<and> f x = Inl e \<and> (\<forall>y \<in> set ys. \<exists>v. f y = Inr v)"
        by blast
    qed
    finally show ?thesis .
  qed
qed

lemma transform_returns:
  assumes "\<forall>raw \<in> set rawData. \<not> truthy (field raw ''type_infra'') \<or> (\<exists>s. field raw ''type_infra'' = JStr s)"
  shows "\<exists>out. transform rawData = Inr out"
proof (cases "map_result rename_fields rawData")
  case (Inl e)
  then obtain ys x zs where "rawData = ys @ x # zs" and xe: "rename_fields x = Inl e"
    unfolding map_result_Inl_iff by blast
  then have x: "x \<in> set rawData" "rename_fields x = Inl e" by simp_all
  then have "normalizeType (field x ''type_infra'') = Inl e"
    by (auto simp: rename_fields_def split: sum.splits)
  then show ?thesis using assms x(1) by (auto simp: normalizeType_Inl_iff)
next
  case (Inr renamed)
  then show ?thesis by (simp add: transform_def)
qed

subsection \<open>Filter, fields and errors of \<^verbatim>\<open>transform\<close>\<close>

text \<open>
  What the filter keeps, once \<^verbatim>\<open>transform\<close> has returned: the record of a raw record is
  in the output if and only if, after the field mapping, its name is not empty, its latitude
  is not zero, its longitude is not zero, and its electricity consumption is greater than 0.
  (After the mapping a coordinate is a Number other than \<^verbatim>\<open>NaN\<close>, so it is never null or
  undefined.) No other field takes part.
\<close>

lemma filter_of_output:
  assumes "transform rawData = Inr out" and "raw \<in> set rawData"
  shows "\<exists>r. rename_fields raw = Inr r \<and>
           (add_computed r \<in> set out \<longleftrightarrow>
              nom r \<noteq> [] \<and> latitude r \<noteq> Fin 0 \<and> longitude r \<noteq> Fin 0
              \<and> num_gt (electricite_kwh r) (Fin 0))"
proof -
  from assms(1) obtain renamed where
    m: "map_result rename_fields rawData = Inr renamed" and
    out: "out = Array_sort by_total_desc (map add_computed (filter is_valid renamed))"
    by (rule transform_Inr)
  from map_result_member[OF m assms(2)] obtain r where
    r: "r \<in> set renamed" "rename_fields raw = Inr r" by blast
  have "add_computed r \<in> set out \<longleftrightarrow> is_valid r"
    using r(1) unfolding out by (auto simp: set_Array_sort dest: add_computed_inj)
  then show ?thesis using r(2) is_valid_renamed[OF r(2)] by blast
qed

text \<open>
  And \<^verbatim>\<open>transform\<close> does return, with exactly these records, when every type code of the
  batch is a string or falsy.
\<close>

lemma filter_when_type_codes_are_strings:
  assumes "\<forall>raw \<in> set rawData.
             \<not> truthy (field raw ''type_infra'') \<or> (\<exists>s. field raw ''type_infra'' = JStr s)"
  shows "\<exists>out. transform rawData = Inr out \<and>
           (\<forall>raw \<in> set rawData. \<exists>r. rename_fields raw = Inr r \<and>
              (add_computed r \<in> set out \<longleftrightarrow>
                 nom r \<noteq> [] \<and> latitude r \<noteq> Fin 0 \<and> longitude r \<noteq> Fin 0
                 \<and> num_gt (electricite_kwh r) (Fin 0)))"
proof -
  from transform_returns[OF assms] obtain out where out: "transform rawData = Inr out" by blast
  have "\<exists>r. rename_fields raw = Inr r \<and>
           (add_computed r \<in> set out \<longleftrightarrow>
              nom r \<noteq> [] \<and> latitude r \<noteq> Fin 0 \<and> longitude r \<noteq> Fin 0
              \<and> num_gt (electricite_kwh r) (Fin 0))" if "raw \<in> set rawData" for raw
    using that by (rule filter_of_output[OF out])
  then show ?thesis using out by blast
qed

text \<open>A record without electricity consumption is dropped, whatever its other fields.\<close>

lemma filter_drops_zero_electricity:
  "transform [no_electricity, ecole_pasteur] = Inr [ecole_pasteur_enriched]
   \<and> map_sum id electricite_kwh (rename_fields no_electricity) = Inr (Fin 0)"
  by code_simp

text \<open>
  C1. A record is in the output of \<^verbatim>\<open>transform\<close> if and only if, after the field mapping,
  its name is not empty, its coordinates are not zero and its electricity consumption is
  greater than 0. The code breaks this on a batch in which another record has the number
  42 for type code: the specification's example passes the four tests and is the output of
  the batch it forms alone, but on the batch of the two \<^verbatim>\<open>normalizeType\<close> raises a
  \<^verbatim>\<open>TypeError\<close> in the first \<^verbatim>\<open>map\<close>, and there is no output for it to be in.
\<close>

theorem filter_batch_throws:
  "map_sum id is_valid (rename_fields ecole_pasteur) = Inr True
   \<and> transform [ecole_pasteur] = Inr [ecole_pasteur_enriched]
   \<and> transform [ecole_pasteur, numeric_type] = Inl TypeError"
  by code_simp

lemma output_record:
  assumes "transform rawData = Inr out" and "c \<in> set out"
  obtains raw r where "raw \<in> set rawData" and "rename_fields raw = Inr r"
    and "is_valid r" and "c = add_computed r"
proof -
  from assms(1) obtain renamed where
    m: "map_result rename_fields rawData = Inr renamed" and
    out: "out = Array_sort by_total_desc (map add_computed (filter is_valid renamed))"
    by (rule transform_Inr)
  from assms(2) obtain r where r: "r \<in> set renamed" "is_valid r" "c = add_computed r"
    unfolding out by (auto simp: set_Array_sort)
  from map_result_origin[OF m r(1)] obtain raw where "raw \<in> set rawData" "rename_fields raw = Inr r"
    by blast
  with r that show thesis by blast
qed




text \<open>
  The guard is for a floor area of 0 or less. With a floor area greater than 0 the
  intensity is what the quotient gives: an electricity consumption written \<^verbatim>\<open>Infinity\<close>
  on 100 square metres has an infinite energy intensity.
\<close>

lemma intensity_of_infinite_consumption:
  "map_sum id (map intensite_energetique) (transform [infinite_electricity]) = Inr [PInf]"
  by code_simp

lemma num_lt_trans_30_60: "\<not> num_lt i (Fin 60) \<Longrightarrow> \<not> num_lt i (Fin 30)"
  by (cases i) auto

text \<open>
  C3. For every record of the output the consumption level comes from the quotient of the
  total by the floor area, not from the rounded intensity field: \<^verbatim>\<open>medium\<close> when the floor
  area is 0 or less; otherwise \<^verbatim>\<open>low\<close> below 30, \<^verbatim>\<open>medium\<close> from 30 to below 60,
  \<^verbatim>\<open>high\<close> from 60 on; exactly 30 is \<^verbatim>\<open>medium\<close> and exactly 60 is \<^verbatim>\<open>high\<close>.
\<close>

theorem consumption_level:
  assumes "transform rawData = Inr out" and "c \<in> set out"
    and i: "i = num_div (energie_totale_kwh c) (surface_m2 c)"
  shows "(num_le (surface_m2 c) (Fin 0) \<longrightarrow> niveau_conso c = ''medium'')
    \<and> (\<not> num_le (surface_m2 c) (Fin 0) \<longrightarrow>
          (num_lt i (Fin 30) \<longrightarrow> niveau_conso c = ''low'')
        \<and> (num_le (Fin 30) i \<and> num_lt i (Fin 60) \<longrightarrow> niveau_conso c = ''medium'')
        \<and> (num_ge i (Fin 60) \<longrightarrow> niveau_conso c = ''high'')
        \<and> (i = Fin 30 \<longrightarrow> niveau_conso c = ''medium'')
        \<and> (i = Fin 60 \<longrightarrow> niveau_conso c = ''high''))"
proof -
  from assms(1,2) obtain raw r where r: "rename_fields raw = Inr r" "c = add_computed r"
    by (rule output_record)
  have lvl: "niveau_conso c = getConsumptionLevel (energie_totale_kwh c) (surface_m2 c)"
    unfolding r(2) add_computed_fields by simp
  show ?thesis
    unfolding lvl getConsumptionLevel_def Let_def i[symmetric]
    using num_lt_trans_30_60[of i]
    by (auto simp: num_le_def num_ge_def)
qed

theorem consumption_level_witness:
  "transform [intensity_30, intensity_60] = Inr [intensity_60_enriched, intensity_30_enriched]
   \<and> num_div (energie_totale_kwh intensity_30_enriched) (surface_m2 intensity_30_enriched) = Fin 30
   \<and> \<not> num_le (surface_m2 intensity_30_enriched) (Fin 0)
   \<and> niveau_conso intensity_30_enriched = ''medium''
   \<and> num_div (energie_totale_kwh intensity_60_enriched) (surface_m2 intensity_60_enriched) = Fin 60
   \<and> \<not> num_le (surface_m2 intensity_60_enriched) (Fin 0)
   \<and> niveau_conso intensity_60_enriched = ''high''"
proof -
  have h1: "transform [intensity_30, intensity_60] = Inr [intensity_60_enriched, intensity_30_enriched]"
    by code_simp
  have m30: "intensity_30_enriched \<in> set [intensity_60_enriched, intensity_30_enriched]"
    and m60: "intensity_60_enriched \<in> set [intensity_60_enriched, intensity_30_enriched]"
    by simp_all
  have i30: "Fin 30 = num_div (energie_totale_kwh intensity_30_enriched) (surface_m2 intensity_30_enriched)"
    and s30: "\<not> num_le (surface_m2 intensity_30_enriched) (Fin 0)"
    and i60: "Fin 60 = num_div (energie_totale_kwh intensity_60_enriched) (surface_m2 intensity_60_enriched)"
    and s60: "\<not> num_le (surface_m2 intensity_60_enriched) (Fin 0)"
    by code_simp+
  show ?thesis
    using h1 i30 s30 i60 s60 consumption_level[OF h1 m30 i30] consumption_level[OF h1 m60 i60]
    by metis
qed

text \<open>
  The level does not follow the rounded field: 2996 kWh on 100 square metres show an
  intensity of 30 and are \<^verbatim>\<open>low\<close>.
\<close>

lemma level_ignores_rounded_intensity:
  "map_sum id (map (\<lambda>c. (intensite_energetique c, niveau_conso c)))
     (transform [intensity_below_30]) = Inr [(Fin 30, ''low'')]"
  by code_simp

text \<open>
  C4 (amended). The category of a mapped record is the label of the table when the
  upper-cased raw string is one of its keys; it is \<^verbatim>\<open>Autre\<close> when the raw value is missing,
  null, the empty string or another falsy value; and it is the raw string itself, unchanged,
  when that string is not empty and not a key.
\<close>

theorem category_normalization:
  assumes "rename_fields raw = Inr r"
  shows "type r =
    (case field raw ''type_infra'' of
       JStr s \<Rightarrow> if s = [] then ''Autre''
                 else (case type_map (toUpperCase s) of Some label \<Rightarrow> label | None \<Rightarrow> s)
     | _ \<Rightarrow> ''Autre'')"
  using rename_fields_Inr(2)[OF assms]
  by (cases "field raw ''type_infra''")
     (auto simp: normalizeType_def split: if_splits option.splits)

theorem category_normalization_witness:
  "rename_fields unknown_type = Inr unknown_type_cleaned
   \<and> field unknown_type ''type_infra'' = JStr ''STADE''
   \<and> type_map (toUpperCase ''STADE'') = None
   \<and> type unknown_type_cleaned = ''STADE''"
proof -
  have h: "rename_fields unknown_type = Inr unknown_type_cleaned" by code_simp
  have f: "field unknown_type ''type_infra'' = JStr ''STADE''"
    and k: "type_map (toUpperCase ''STADE'') = None" by code_simp+
  show ?thesis using h f k category_normalization[OF h] by simp
qed

theorem category_fallback_counterexample:
  "field unknown_type ''type_infra'' = JStr ''STADE''
   \<and> type_map (toUpperCase ''STADE'') = None
   \<and> map_sum id type (rename_fields unknown_type) = Inr ''STADE''"
  by code_simp

text \<open>
  C5. \<^verbatim>\<open>transform\<close> raises a \<^verbatim>\<open>TypeError\<close> on a record whose type code is the number 42:
  \<^verbatim>\<open>normalizeType\<close> calls \<^verbatim>\<open>toUpperCase\<close> on it.
\<close>

theorem transform_throws:
  "transform [numeric_type] = Inl TypeError"
  by code_simp

lemma Math_round_integer: "n \<noteq> NaN \<Longrightarrow> is_integer_or_infinite (Math_round n)"
  by (cases n) auto

lemma toNumber_integer: "is_integer_or_infinite (toNumber v)"
  by (simp add: toNumber_def Let_def isNaN_num_def Math_round_integer)

lemma or_zero_integer: "is_integer_or_infinite n \<Longrightarrow> is_integer_or_infinite (or_zero n)"
  by (simp add: or_zero_def)

text \<open>
  C9 (amended). In every record of the output the integer fields (gas, water, floor area,
  year, occupants, electricity) hold an integer or an infinity, never \<^verbatim>\<open>NaN\<close>; they can be
  negative, since \<^verbatim>\<open>toNumber\<close> only rounds. Electricity is greater than 0.
\<close>

theorem integer_fields:
  assumes "transform rawData = Inr out" and "c \<in> set out"
  shows "is_integer_or_infinite (gaz_kwh c) \<and> is_integer_or_infinite (eau_m3 c)
    \<and> is_integer_or_infinite (surface_m2 c) \<and> is_integer_or_infinite (annee c)
    \<and> is_integer_or_infinite (occupants c) \<and> is_integer_or_infinite (electricite_kwh c)
    \<and> num_gt (electricite_kwh c) (Fin 0)"
proof -
  from assms obtain raw r where
    r: "rename_fields raw = Inr r" "is_valid r" "c = add_computed r"
    by (rule output_record)
  note f = rename_fields_Inr[OF r(1)]
  have "is_integer_or_infinite (gaz_kwh r)" "is_integer_or_infinite (eau_m3 r)"
    "is_integer_or_infinite (surface_m2 r)" "is_integer_or_infinite (annee r)"
    "is_integer_or_infinite (occupants r)" "is_integer_or_infinite (electricite_kwh r)"
    unfolding f by (simp_all add: toNumber_integer or_zero_integer)
  moreover have "num_gt (electricite_kwh r) (Fin 0)" using r(2) by (simp add: is_valid_def)
  ultimately show ?thesis unfolding r(3) add_computed_fields by simp
qed

theorem integer_fields_witness:
  "transform [negative_gas] = Inr [negative_gas_enriched]
   \<and> gaz_kwh negative_gas_enriched = Fin (- 100)
   \<and> is_integer_or_infinite (gaz_kwh negative_gas_enriched)
   \<and> num_gt (electricite_kwh negative_gas_enriched) (Fin 0)"
proof -
  have h1: "transform [negative_gas] = Inr [negative_gas_enriched]" by code_simp
  have h2: "negative_gas_enriched \<in> set [negative_gas_enriched]" by simp
  have g: "gaz_kwh negative_gas_enriched = Fin (- 100)" by code_simp
  show ?thesis using h1 g integer_fields[OF h1 h2] by simp
qed

theorem non_negative_counterexample:
  "map_sum id (map gaz_kwh) (transform [negative_gas]) = Inr [Fin (- 100)]
   \<and> \<not> num_ge (Fin (- 100)) (Fin 0)"
  by code_simp

lemma round64_not_NaN: "round64 x \<noteq> NaN"
  by (simp add: round64_def Let_def)

lemma StrUnsignedDecimalLiteral_not_NaN:
  "StrUnsignedDecimalLiteral s = Some (n, rest) \<Longrightarrow> n \<noteq> NaN"
  by (auto simp: StrUnsignedDecimalLiteral_def Let_def round64_not_NaN
           split: if_splits prod.splits)

lemma StrDecimalLiteral_not_NaN:
  assumes "StrDecimalLiteral s = Some (n, rest)"
  shows "n \<noteq> NaN"
proof (cases s)
  case Nil
  then show ?thesis using assms by (simp add: StrDecimalLiteral_def)
next
  case (Cons c t)
  consider "c = CHR ''+''" | "c = CHR ''-''" | "c \<noteq> CHR ''+''" "c \<noteq> CHR ''-''" by blast
  then show ?thesis
  proof cases
    case 1
    then show ?thesis using assms Cons
      by (auto simp: StrDecimalLiteral_def dest: StrUnsignedDecimalLiteral_not_NaN)
  next
    case 2
    then obtain m where "StrUnsignedDecimalLiteral t = Some (m, rest)" "n = num_neg m"
      using assms Cons by (auto simp: StrDecimalLiteral_def)
    then show ?thesis using StrUnsignedDecimalLiteral_not_NaN[of t m rest] by (cases m) auto
  next
    case 3
    then show ?thesis using assms Cons
      by (auto simp: StrDecimalLiteral_def dest: StrUnsignedDecimalLiteral_not_NaN)
  qed
qed

text \<open>
  C10 (amended). \<^verbatim>\<open>toFloat\<close> gives 0 for null, undefined and the empty string, and for a
  value in which \<^verbatim>\<open>parseFloat\<close> finds no number; otherwise it gives what \<^verbatim>\<open>parseFloat\<close>
  reads, unrounded. On a string that is the value of the longest decimal literal after the
  leading white space, whatever follows it: a string need not be numeric as a whole. The
  result is never \<^verbatim>\<open>NaN\<close>, and it is what the latitude and the longitude of a mapped record
  hold.
\<close>

theorem toFloat_cases:
  "toFloat v =
     (if v = JNull \<or> v = JUndefined \<or> v = JStr [] \<or> parseFloat v = NaN then Fin 0
      else parseFloat v)
   \<and> toFloat v \<noteq> NaN
   \<and> (StrDecimalLiteral (trimStart s) = None \<longrightarrow> toFloat (JStr s) = Fin 0)
   \<and> (StrDecimalLiteral (trimStart s) = Some (n, rest) \<longrightarrow> toFloat (JStr s) = n)
   \<and> (rename_fields raw = Inr r \<longrightarrow>
        latitude r = toFloat (field raw ''lat'') \<and> longitude r = toFloat (field raw ''lng''))"
proof -
  have a: "toFloat v =
     (if v = JNull \<or> v = JUndefined \<or> v = JStr [] \<or> parseFloat v = NaN then Fin 0
      else parseFloat v)"
    by (simp add: toFloat_def Let_def isNaN_num_def)
  have b: "toFloat (JStr s) = Fin 0" if "StrDecimalLiteral (trimStart s) = None"
    using that by (simp add: toFloat_def Let_def isNaN_num_def parseFloat_def parseFloat_string_def)
  have c: "toFloat (JStr s) = n" if h: "StrDecimalLiteral (trimStart s) = Some (n, rest)"
  proof -
    have "s \<noteq> []" using h by (auto simp: trimStart_def StrDecimalLiteral_def)
    moreover have "n \<noteq> NaN" using h by (rule StrDecimalLiteral_not_NaN)
    ultimately show ?thesis using h
      by (simp add: toFloat_def Let_def isNaN_num_def parseFloat_def parseFloat_string_def)
  qed
  show ?thesis using a b c toFloat_not_NaN rename_fields_Inr(9,10) by blast
qed

theorem toFloat_cases_witness:
  "StrDecimalLiteral (trimStart '' 45.75 N'') = Some (Fin (183 / 4), '' N'')
   \<and> toFloat (JStr '' 45.75 N'') = Fin (183 / 4)
   \<and> StrDecimalLiteral (trimStart ''n/a'') = None
   \<and> toFloat (JStr ''n/a'') = Fin 0"
proof -
  have h: "StrDecimalLiteral (trimStart '' 45.75 N'') = Some (Fin (183 / 4), '' N'')"
    and k: "StrDecimalLiteral (trimStart ''n/a'') = None"
    by code_simp+
  show ?thesis
    using h k toFloat_cases[of "JNull" "'' 45.75 N''" "Fin (183 / 4)" "'' N''"]
      toFloat_cases[of "JNull" "''n/a''"] by blast
qed

theorem non_numeric_counterexample:
  "ToNumber (JStr ''12abc'') = NaN \<and> toNumber (JStr ''12abc'') = Fin 0
   \<and> toFloat (JStr ''12abc'') = Fin 12"
  by code_simp

subsection \<open>The order of the output\<close>

lemma num_add_Fin_rounded:
  assumes "num_add a b = Fin v"
  shows "\<exists>x. round64 x = Fin v"
  using assms by (cases a; cases b) auto

lemma num_lt_asym: "num_lt a b \<Longrightarrow> \<not> num_lt b a"
  by (cases a; cases b) auto

lemma num_lt_neg_trans:
  "a \<noteq> NaN \<Longrightarrow> b \<noteq> NaN \<Longrightarrow> c \<noteq> NaN \<Longrightarrow> \<not> num_lt a b \<Longrightarrow> \<not> num_lt b c \<Longrightarrow> \<not> num_lt a c"
  by (cases a; cases b; cases c) auto

lemma num_lt_irrefl: "\<not> num_lt a a"
  by (cases a) auto

lemma num_ge_iff: "a \<noteq> NaN \<Longrightarrow> b \<noteq> NaN \<Longrightarrow> num_ge a b \<longleftrightarrow> \<not> num_lt a b"
  by (simp add: num_ge_def num_le_def)

text \<open>
  On totals that are not \<^verbatim>\<open>NaN\<close> the comparison function of \<^verbatim>\<open>transform\<close> says
  \<open>greater\<close> exactly when the first total is the smaller one.
\<close>

lemma by_total_desc_gt:
  assumes "energie_totale_kwh a \<noteq> NaN" "energie_totale_kwh b \<noteq> NaN"
    and "\<And>v. energie_totale_kwh a = Fin v \<Longrightarrow> \<exists>x. round64 x = Fin v"
    and "\<And>v. energie_totale_kwh b = Fin v \<Longrightarrow> \<exists>x. round64 x = Fin v"
  shows "num_gt (SortCompare by_total_desc a b) (Fin 0)
           \<longleftrightarrow> num_lt (energie_totale_kwh a) (energie_totale_kwh b)"
proof (cases "energie_totale_kwh a")
  case (Fin u)
  show ?thesis
  proof (cases "energie_totale_kwh b")
    case v: (Fin v)
    obtain x y where x: "round64 x = Fin u" and y: "round64 y = Fin v"
      using assms(3)[OF Fin] assms(4)[OF v] by blast
    have "by_total_desc a b = round64 (v - u)"
      by (simp add: by_total_desc_def num_sub_def Fin v)
    then show ?thesis
      using round64_diff_sign(1)[OF y x] round64_not_NaN[of "v - u"]
      by (simp add: SortCompare_def Let_def num_gt_def Fin v)
  qed (use assms(2) Fin in \<open>auto simp: SortCompare_def by_total_desc_def num_sub_def num_gt_def\<close>)
next
  case NaN
  then show ?thesis using assms(1) by simp
next
  case PInf
  then show ?thesis using assms(2)
    by (cases "energie_totale_kwh b")
       (auto simp: SortCompare_def by_total_desc_def num_sub_def num_gt_def)
next
  case NInf
  then show ?thesis using assms(2)
    by (cases "energie_totale_kwh b")
       (auto simp: SortCompare_def by_total_desc_def num_sub_def num_gt_def)
qed

text \<open>
  Insertion with a comparison function that agrees with a key on the elements at hand:
  the result is in non-increasing order of the key, and elements of equal key keep their
  order.
\<close>

lemma sorted_sort_insert:
  assumes cmp: "\<And>a b. a \<in> insert x (set ys) \<Longrightarrow> b \<in> insert x (set ys) \<Longrightarrow>
                  num_gt (SortCompare f a b) (Fin 0) \<longleftrightarrow> num_lt (k a) (k b)"
    and nn: "\<And>a. a \<in> insert x (set ys) \<Longrightarrow> k a \<noteq> NaN"
    and "sorted_wrt (\<lambda>a b. num_ge (k a) (k b)) ys"
  shows "sorted_wrt (\<lambda>a b. num_ge (k a) (k b)) (sort_insert f x ys)"
  using assms
proof (induction ys)
  case Nil
  then show ?case by simp
next
  case (Cons y ys)
  have c: "num_gt (SortCompare f x y) (Fin 0) \<longleftrightarrow> num_lt (k x) (k y)"
    by (rule Cons.prems(1)) simp_all
  have nx: "k x \<noteq> NaN" and ny: "k y \<noteq> NaN" by (rule Cons.prems(2), simp)+
  have nz: "k z \<noteq> NaN" if "z \<in> set ys" for z using that by (intro Cons.prems(2)) simp
  have yz: "num_ge (k y) (k z)" if "z \<in> set ys" for z using Cons.prems(3) that by simp
  show ?case
  proof (cases "num_lt (k x) (k y)")
    case True
    have IH: "sorted_wrt (\<lambda>a b. num_ge (k a) (k b)) (sort_insert f x ys)"
    proof (rule Cons.IH)
      show "num_gt (SortCompare f a b) (Fin 0) \<longleftrightarrow> num_lt (k a) (k b)"
        if "a \<in> insert x (set ys)" "b \<in> insert x (set ys)" for a b
        using that by (intro Cons.prems(1)) auto
      show "k a \<noteq> NaN" if "a \<in> insert x (set ys)" for a
        using that by (intro Cons.prems(2)) auto
      show "sorted_wrt (\<lambda>a b. num_ge (k a) (k b)) ys" using Cons.prems(3) by simp
    qed
    have "num_ge (k y) (k x)" using True nx ny num_lt_asym[of "k x" "k y"] by (simp add: num_ge_iff)
    then show ?thesis using True c IH yz by (auto simp: set_sort_insert)
  next
    case False
    have "num_ge (k x) (k z)" if "z \<in> set ys" for z
    proof -
      have "\<not> num_lt (k y) (k z)" using yz[OF that] ny nz[OF that] by (simp add: num_ge_iff)
      then have "\<not> num_lt (k x) (k z)" using False nx ny nz[OF that] num_lt_neg_trans by blast
      then show ?thesis using nx nz[OF that] by (simp add: num_ge_iff)
    qed
    moreover have "num_ge (k x) (k y)" using False nx ny by (simp add: num_ge_iff)
    ultimately show ?thesis using False c Cons.prems(3) by auto
  qed
qed

lemma sorted_Array_sort:
  assumes cmp: "\<And>a b. a \<in> set xs \<Longrightarrow> b \<in> set xs \<Longrightarrow>
                  num_gt (SortCompare f a b) (Fin 0) \<longleftrightarrow> num_lt (k a) (k b)"
    and nn: "\<And>a. a \<in> set xs \<Longrightarrow> k a \<noteq> NaN"
  shows "sorted_wrt (\<lambda>a b. num_ge (k a) (k b)) (Array_sort f xs)"
  using assms
proof (induction xs)
  case Nil
  then show ?case by simp
next
  case (Cons x xs)
  have "sorted_wrt (\<lambda>a b. num_ge (k a) (k b)) (sort_insert f x (Array_sort f xs))"
  proof (rule sorted_sort_insert)
    show "num_gt (SortCompare f a b) (Fin 0) \<longleftrightarrow> num_lt (k a) (k b)"
      if "a \<in> insert x (set (Array_sort f xs))" "b \<in> insert x (set (Array_sort f xs))" for a b
      using that by (intro Cons.prems(1)) (auto simp: set_Array_sort)
    show "k a \<noteq> NaN" if "a \<in> insert x (set (Array_sort f xs))" for a
      using that by (intro Cons.prems(2)) (auto simp: set_Array_sort)
    show "sorted_wrt (\<lambda>a b. num_ge (k a) (k b)) (Array_sort f xs)"
    proof (rule Cons.IH)
      show "num_gt (SortCompare f a b) (Fin 0) \<longleftrightarrow> num_lt (k a) (k b)"
        if "a \<in> set xs" "b \<in> set xs" for a b
        using that by (intro Cons.prems(1)) auto
      show "k a \<noteq> NaN" if "a \<in> set xs" for a
        using that by (intro Cons.prems(2)) auto
    qed
  qed
  then show ?case by simp
qed

lemma stable_sort_insert:
  assumes cmp: "\<And>b. b \<in> set ys \<Longrightarrow>
                  num_gt (SortCompare f x b) (Fin 0) \<longleftrightarrow> num_lt (k x) (k b)"
  shows "filter (\<lambda>c. k c = t) (sort_insert f x ys) = filter (\<lambda>c. k c = t) (x # ys)"
  using assms
proof (induction ys)
  case Nil
  then show ?case by simp
next
  case (Cons y ys)
  have c: "num_gt (SortCompare f x y) (Fin 0) \<longleftrightarrow> num_lt (k x) (k y)"
    by (rule Cons.prems) simp
  have IH: "filter (\<lambda>c. k c = t) (sort_insert f x ys) = filter (\<lambda>c. k c = t) (x # ys)"
    by (rule Cons.IH) (simp add: Cons.prems)
  show ?case
  proof (cases "num_lt (k x) (k y)")
    case True
    then have "k x \<noteq> k y" using num_lt_irrefl[of "k y"] by auto
    then show ?thesis using True c IH by auto
  next
    case False
    then show ?thesis using c by simp
  qed
qed

lemma stable_Array_sort:
  assumes cmp: "\<And>a b. a \<in> set xs \<Longrightarrow> b \<in> set xs \<Longrightarrow>
                  num_gt (SortCompare f a b) (Fin 0) \<longleftrightarrow> num_lt (k a) (k b)"
  shows "filter (\<lambda>c. k c = t) (Array_sort f xs) = filter (\<lambda>c. k c = t) xs"
  using assms
proof (induction xs)
  case Nil
  then show ?case by simp
next
  case (Cons x xs)
  have "filter (\<lambda>c. k c = t) (sort_insert f x (Array_sort f xs))
          = filter (\<lambda>c. k c = t) (x # Array_sort f xs)"
    by (rule stable_sort_insert) (simp add: Cons.prems set_Array_sort)
  moreover have "filter (\<lambda>c. k c = t) (Array_sort f xs) = filter (\<lambda>c. k c = t) xs"
    by (rule Cons.IH) (simp add: Cons.prems)
  ultimately show ?case by simp
qed

text \<open>
  C6 (amended). When no record of the output has a total that is \<^verbatim>\<open>NaN\<close>, the output is
  in non-increasing order of the total, and the records of equal total are in the order
  they had before the sort, that is after the filter and the derived fields.
\<close>

theorem sort_stability:
  assumes "transform rawData = Inr out"
    and "\<forall>c \<in> set out. energie_totale_kwh c \<noteq> NaN"
  shows "sorted_wrt (\<lambda>a b. num_ge (energie_totale_kwh a) (energie_totale_kwh b)) out
    \<and> (\<exists>renamed. map_result rename_fields rawData = Inr renamed
          \<and> (\<forall>t. filter (\<lambda>c. energie_totale_kwh c = t) out
                 = filter (\<lambda>c. energie_totale_kwh c = t)
                     (map add_computed (filter is_valid renamed))))"
proof -
  from assms(1) obtain renamed where
    m: "map_result rename_fields rawData = Inr renamed" and
    out: "out = Array_sort by_total_desc (map add_computed (filter is_valid renamed))"
    by (rule transform_Inr)
  define pre where "pre = map add_computed (filter is_valid renamed)"
  have set_out: "set out = set pre" unfolding out pre_def by (simp add: set_Array_sort)
  have nn: "energie_totale_kwh a \<noteq> NaN" if "a \<in> set pre" for a
    using that assms(2) set_out by blast
  have rd: "\<exists>x. round64 x = Fin v" if "a \<in> set pre" "energie_totale_kwh a = Fin v" for a v
  proof -
    from that(1) obtain r where "a = add_computed r" unfolding pre_def by auto
    then have "energie_totale_kwh a = num_add (electricite_kwh r) (gaz_kwh r)"
      by (simp add: add_computed_fields)
    then show ?thesis using that(2) num_add_Fin_rounded by metis
  qed
  have cmp: "num_gt (SortCompare by_total_desc a b) (Fin 0)
               \<longleftrightarrow> num_lt (energie_totale_kwh a) (energie_totale_kwh b)"
    if "a \<in> set pre" "b \<in> set pre" for a b
    using that by (intro by_total_desc_gt nn rd)
  have "sorted_wrt (\<lambda>a b. num_ge (energie_totale_kwh a) (energie_totale_kwh b)) out"
    unfolding out pre_def[symmetric] by (rule sorted_Array_sort) (use cmp nn in auto)
  moreover have "filter (\<lambda>c. energie_totale_kwh c = t) out
                   = filter (\<lambda>c. energie_totale_kwh c = t) pre" for t
    unfolding out pre_def[symmetric] by (rule stable_Array_sort) (use cmp in auto)
  ultimately show ?thesis using m unfolding pre_def by blast
qed

theorem sort_stability_witness:
  "transform [intensity_30, intensity_60, tie_3000]
     = Inr [intensity_60_enriched, intensity_30_enriched, tie_3000_enriched]
   \<and> energie_totale_kwh intensity_60_enriched \<noteq> NaN
   \<and> energie_totale_kwh intensity_30_enriched \<noteq> NaN
   \<and> energie_totale_kwh tie_3000_enriched \<noteq> NaN
   \<and> map energie_totale_kwh [intensity_60_enriched, intensity_30_enriched, tie_3000_enriched]
       = [Fin 6000, Fin 3000, Fin 3000]
   \<and> sorted_wrt (\<lambda>a b. num_ge (energie_totale_kwh a) (energie_totale_kwh b))
       [intensity_60_enriched, intensity_30_enriched, tie_3000_enriched]"
proof -
  have h1: "transform [intensity_30, intensity_60, tie_3000]
     = Inr [intensity_60_enriched, intensity_30_enriched, tie_3000_enriched]" by code_simp
  have t: "map energie_totale_kwh [intensity_60_enriched, intensity_30_enriched, tie_3000_enriched]
       = [Fin 6000, Fin 3000, Fin 3000]" by code_simp
  then have h2: "\<forall>c \<in> set [intensity_60_enriched, intensity_30_enriched, tie_3000_enriched].
         energie_totale_kwh c \<noteq> NaN" by auto
  show ?thesis using h1 h2 t sort_stability[OF h1 h2] by simp
qed

text \<open>
  With a total that is \<^verbatim>\<open>NaN\<close> the order is lost. Two records, the first with
  electricity \<^verbatim>\<open>Infinity\<close> and gas \<^verbatim>\<open>-Infinity\<close>: both pass the filter, every comparison
  gives \<^verbatim>\<open>NaN\<close>, that is 0, and the stable sort leaves them as they are, \<^verbatim>\<open>NaN\<close> before
  5. With a third record the comparison function is no longer consistent, and insertion
  leaves 5 before 3000.
\<close>

theorem sort_order_counterexample:
  "map_sum id (map energie_totale_kwh) (transform [nan_total, small_total]) = Inr [NaN, Fin 5]
   \<and> \<not> num_ge NaN (Fin 5)
   \<and> map_sum id (map energie_totale_kwh) (transform [small_total, nan_total, intensity_30])
       = Inr [Fin 5, NaN, Fin 3000]
   \<and> \<not> num_ge (Fin 5) (Fin 3000)"
  by code_simp

subsection \<open>The orchestrator\<close>

lemma step_update_fields:
  assumes "step_update cb a b s = (r, s1)"
  shows "isProcessing s1 = isProcessing s" and "pending s1 = pending s"
    and "processedData s1 = processedData s"
  using assms by (auto simp: step_update_def split: option.splits)

lemma run_events_append:
  "run_events resultats (evs @ evs') s = run_events resultats evs' (run_events resultats evs s)"
  by (induction evs arbitrary: s) auto

lemma single_run_runETLPipeline:
  assumes "single_run s"
  shows "single_run (snd (runETLPipeline cb s))"
proof (cases "isProcessing s")
  case True
  then show ?thesis using assms by (simp add: runETLPipeline_def)
next
  case False
  obtain r s1 where u: "step_update cb ''extract'' ''active'' (s\<lparr>isProcessing := True\<rparr>) = (r, s1)"
    by (cases "step_update cb ''extract'' ''active'' (s\<lparr>isProcessing := True\<rparr>)")
  have "pending s1 = []" using step_update_fields(2)[OF u] assms False by (simp add: single_run_def)
  then show ?thesis using False u step_update_fields(1)[OF u]
    by (cases r) (simp_all add: runETLPipeline_def single_run_def)
qed

lemma single_run_next_stage:
  assumes "isProcessing s" "pending s = []"
  shows "single_run (snd (next_stage cb d a point s))"
proof -
  obtain r1 s1 where u1: "step_update cb d ''done'' s = (r1, s1)"
    by (cases "step_update cb d ''done'' s")
  obtain r2 s2 where u2: "step_update cb a ''active'' s1 = (r2, s2)"
    by (cases "step_update cb a ''active'' s1")
  have "pending s1 = []" "isProcessing s1" "pending s2 = []" "isProcessing s2"
    using step_update_fields(1,2)[OF u1] step_update_fields(1,2)[OF u2] assms by simp_all
  then show ?thesis using u1 u2
    by (cases r1; cases r2) (simp_all add: next_stage_def single_run_def)
qed

lemma single_run_resume:
  assumes "isProcessing s" "pending s = []"
  shows "single_run (snd (resume resultats run s))"
proof (cases run)
  case (Pair point cb)
  show ?thesis
  proof (cases point)
    case AwaitDelay600
    then show ?thesis using Pair assms single_run_next_stage[OF assms]
      by (auto simp: resume_def single_run_def split: sum.splits)
  next
    case (AwaitDelay800 rawData)
    then show ?thesis using Pair assms single_run_next_stage[OF assms]
      by (auto simp: resume_def single_run_def split: sum.splits)
  next
    case (AwaitDelay500 transformedData)
    obtain r s1 where u: "step_update cb ''load'' ''done''
        (s\<lparr>processedData := load transformedData\<rparr>) = (r, s1)"
      by (cases "step_update cb ''load'' ''done'' (s\<lparr>processedData := load transformedData\<rparr>)")
    have "pending s1 = []" using step_update_fields(2)[OF u] assms by simp
    then show ?thesis using Pair AwaitDelay500 u
      by (cases r) (simp_all add: resume_def single_run_def)
  qed
qed

lemma single_run_step:
  assumes "single_run s"
  shows "single_run (snd (step resultats ev s))"
proof (cases ev)
  case (Start cb)
  then show ?thesis using single_run_runETLPipeline[OF assms] by (simp add: step_def)
next
  case (DelayElapsed i)
  show ?thesis
  proof (cases "i < length (pending s)")
    case True
    then have "length (pending s) = 1" "i = 0" "isProcessing s"
      using assms by (auto simp: single_run_def)
    then have "isProcessing (s\<lparr>pending := take i (pending s) @ drop (Suc i) (pending s)\<rparr>)"
      and "pending (s\<lparr>pending := take i (pending s) @ drop (Suc i) (pending s)\<rparr>) = []"
      by simp_all
    from single_run_resume[OF this] show ?thesis using True DelayElapsed by (simp add: step_def)
  next
    case False
    then show ?thesis using assms DelayElapsed by (simp add: step_def)
  qed
qed

lemma single_run_run_events:
  "single_run s \<Longrightarrow> single_run (run_events resultats evs s)"
  by (induction evs arbitrary: s) (auto intro: single_run_step)

lemma single_run_initial: "single_run initial"
  by (simp add: single_run_def initial_def)

text \<open>
  C7. A call of \<^verbatim>\<open>runETLPipeline\<close> while a run is in progress resolves at once with the
  published data and leaves the whole system as it was: no stage is run, the callback is
  not called, the suspended run is untouched. So a history with such a call ends in the same
  state, with the same published data and the same notifications, as the history without
  it. At any time at most one run is suspended, and the flag is set exactly then.
\<close>

theorem single_flight:
  "(isETLProcessing s \<longrightarrow> runETLPipeline onStepUpdate s = (Resolved (getData s), s))
   \<and> (isETLProcessing (run_events resultats evs initial) \<longrightarrow>
        run_events resultats (evs @ Start onStepUpdate # evs') initial
          = run_events resultats (evs @ evs') initial)
   \<and> length (pending (run_events resultats evs initial)) \<le> 1
   \<and> (isETLProcessing (run_events resultats evs initial)
        \<longleftrightarrow> pending (run_events resultats evs initial) \<noteq> [])"
proof -
  have a: "runETLPipeline onStepUpdate s = (Resolved (getData s), s)" if "isETLProcessing s" for s
    using that by (simp add: runETLPipeline_def isETLProcessing_def getData_def)
  have b: "run_events resultats (evs @ Start onStepUpdate # evs') initial
          = run_events resultats (evs @ evs') initial"
    if "isETLProcessing (run_events resultats evs initial)"
    using a[OF that] by (simp add: run_events_append step_def)
  have "single_run (run_events resultats evs initial)"
    by (rule single_run_run_events[OF single_run_initial])
  then show ?thesis using a b by (simp add: single_run_def isETLProcessing_def)
qed

theorem single_flight_witness:
  "isETLProcessing running_system
   \<and> runETLPipeline quiet_callback running_system
       = (Resolved [ecole_pasteur_enriched], running_system)
   \<and> isETLProcessing (run_events (Some [ecole_pasteur]) [Start quiet_callback] initial)
   \<and> run_events (Some [ecole_pasteur])
        ([Start quiet_callback] @ Start quiet_callback
           # [DelayElapsed 0, DelayElapsed 0, DelayElapsed 0]) initial
       = run_events (Some [ecole_pasteur])
           ([Start quiet_callback] @ [DelayElapsed 0, DelayElapsed 0, DelayElapsed 0]) initial
   \<and> getData (run_events (Some [ecole_pasteur])
        ([Start quiet_callback] @ [DelayElapsed 0, DelayElapsed 0, DelayElapsed 0]) initial)
       = [ecole_pasteur_enriched]
   \<and> effects (run_events (Some [ecole_pasteur])
        ([Start quiet_callback] @ [DelayElapsed 0, DelayElapsed 0, DelayElapsed 0]) initial)
       = [StepUpdate ''extract'' ''active'', StepUpdate ''extract'' ''done'',
          StepUpdate ''transform'' ''active'', StepUpdate ''transform'' ''done'',
          StepUpdate ''load'' ''active'', StepUpdate ''load'' ''done'',
          EtlComplete [ecole_pasteur_enriched]]"
proof -
  have h1: "isETLProcessing running_system" by code_simp
  have g: "getData running_system = [ecole_pasteur_enriched]" by code_simp
  have h2: "isETLProcessing (run_events (Some [ecole_pasteur]) [Start quiet_callback] initial)"
    by code_simp
  have d: "getData (run_events (Some [ecole_pasteur])
        ([Start quiet_callback] @ [DelayElapsed 0, DelayElapsed 0, DelayElapsed 0]) initial)
       = [ecole_pasteur_enriched]" by code_simp
  have e: "effects (run_events (Some [ecole_pasteur])
        ([Start quiet_callback] @ [DelayElapsed 0, DelayElapsed 0, DelayElapsed 0]) initial)
       = [StepUpdate ''extract'' ''active'', StepUpdate ''extract'' ''done'',
          StepUpdate ''transform'' ''active'', StepUpdate ''transform'' ''done'',
          StepUpdate ''load'' ''active'', StepUpdate ''load'' ''done'',
          EtlComplete [ecole_pasteur_enriched]]" by code_simp
  show ?thesis
    using h1 g h2 d e
      single_flight[of running_system quiet_callback "Some [ecole_pasteur]"
        "[Start quiet_callback]" "[DelayElapsed 0, DelayElapsed 0, DelayElapsed 0]"]
    by metis
qed

text \<open>
  C8. When \<^verbatim>\<open>extract\<close> or \<^verbatim>\<open>transform\<close> raises in a run, the promise of the run is
  rejected with that error and the only change of the system is that the flag is cleared:
  the published data are as before, nothing was notified or dispatched for the load stage,
  no run is left suspended, and a later call starts a new run.
\<close>

theorem error_isolation:
  "(extract_stage resultats = Inl e \<longrightarrow>
      resume resultats (AwaitDelay600, onStepUpdate) s = (Rejected e, s\<lparr>isProcessing := False\<rparr>))
   \<and> (transform rawData = Inl e \<longrightarrow>
      resume resultats (AwaitDelay800 rawData, onStepUpdate) s
        = (Rejected e, s\<lparr>isProcessing := False\<rparr>))
   \<and> getData (s\<lparr>isProcessing := False\<rparr>) = getData s
   \<and> \<not> isETLProcessing (s\<lparr>isProcessing := False\<rparr>)
   \<and> effects (s\<lparr>isProcessing := False\<rparr>) = effects s
   \<and> pending (s\<lparr>isProcessing := False\<rparr>) = pending s
   \<and> runETLPipeline None (s\<lparr>isProcessing := False\<rparr>)
       = (Pending, s\<lparr>isProcessing := True, pending := pending s @ [(AwaitDelay600, None)]\<rparr>)"
  by (simp add: resume_def getData_def isETLProcessing_def runETLPipeline_def step_update_def)

theorem error_isolation_witness:
  "extract_stage None = Inl SyntaxError
   \<and> resume None (AwaitDelay600, quiet_callback) running_system
       = (Rejected SyntaxError, running_system\<lparr>isProcessing := False\<rparr>)
   \<and> transform [numeric_type] = Inl TypeError
   \<and> resume None (AwaitDelay800 [numeric_type], quiet_callback) running_system
       = (Rejected TypeError, running_system\<lparr>isProcessing := False\<rparr>)
   \<and> getData (running_system\<lparr>isProcessing := False\<rparr>) = [ecole_pasteur_enriched]"
proof -
  have h1: "extract_stage None = Inl SyntaxError" by (simp add: extract_stage_def)
  have h2: "transform [numeric_type] = Inl TypeError" by code_simp
  have g: "getData running_system = [ecole_pasteur_enriched]" by code_simp
  show ?thesis
    using h1 h2 g
      error_isolation[of None SyntaxError quiet_callback running_system "[numeric_type]"]
      error_isolation[of None TypeError quiet_callback running_system "[numeric_type]"]
    by metis
qed

text \<open>A whole run whose source is missing: from the first call to the rejection.\<close>

lemma failed_run_trace:
  "effects (run_events None [Start quiet_callback, DelayElapsed 0] initial)
     = [StepUpdate ''extract'' ''active'']
   \<and> getData (run_events None [Start quiet_callback, DelayElapsed 0] initial) = []
   \<and> \<not> isETLProcessing (run_events None [Start quiet_callback, DelayElapsed 0] initial)"
  by code_simp

end
